theory Spec2Isabelle
  imports Main
begin

section \<open>Python strings\<close>

text \<open>
  A Python \<open>str\<close> is modelled as a \<open>string\<close>: each \<open>char\<close> stands for one
  code point below 256. \<open>isspace\<close> is \<open>str.isspace\<close> on that range: the characters
  that \<open>rstrip()\<close> and \<open>strip()\<close> without an argument remove.
\<close>

definition isspace :: "char \<Rightarrow> bool" where
  "isspace c = (c \<in> set [CHR 0x09, CHR 0x0A, CHR 0x0B, CHR 0x0C, CHR 0x0D,
                          CHR 0x1C, CHR 0x1D, CHR 0x1E, CHR 0x1F, CHR 0x20,
                          CHR 0x85, CHR 0xA0])"

definition lstrip :: "string \<Rightarrow> string" where
  "lstrip txt = dropWhile isspace txt"

definition rstrip :: "string \<Rightarrow> string" where
  "rstrip txt = rev (dropWhile isspace (rev txt))"

definition strip :: "string \<Rightarrow> string" where
  "strip txt = rstrip (lstrip txt)"

definition startswith :: "string \<Rightarrow> string \<Rightarrow> bool" where
  "startswith txt pre = (take (length pre) txt = pre)"

text \<open>\<open>_removeprefix(txt, prefix)\<close>; a slice \<open>txt[n:]\<close> is \<open>drop n txt\<close>.\<close>

definition removeprefix :: "string \<Rightarrow> string \<Rightarrow> string" where
  "removeprefix txt pre = (if startswith txt pre then drop (length pre) txt else txt)"

definition valid_type :: string where
  "valid_type = ''abcdefghijklmnopqrstuvwxyz'' @ ''ABCDEFGHIJKLMNOPQRSTUVWXYZ''
                @ ''0123456789'' @ ''-''"

definition is_valid_type :: "string \<Rightarrow> bool" where
  "is_valid_type txt = list_all (\<lambda>c. c \<in> set valid_type) txt"

section \<open>The parser object and the block scanner\<close>

text \<open>
  Errors are values. \<open>ValueError\<close> carries which of the three messages of the source
  it was raised with; the texts of warnings and diagnostics are kept as the values
  interpolated into them.
\<close>

datatype message = ProvideOnlyOne | MustProvideOne | MultipleBlocks string

datatype possible_error = NewBlockBeforeClosed string "string option"

datatype error =
    ValueError message
  | KeyError string
  | TOMLDecodeError string "possible_error list"
  | TypeError
  | AttributeError
  | OSError
  | InvalidSpecifier
  | InvalidRequirement

datatype warning = UnclosedBlock "string option" | ShouldBePyproject string

datatype event = Yield "string option" string | Warn warning

text \<open>\<open>src_path\<close> is a \<open>str\<close> or an \<open>os.PathLike\<close> object; the latter is always true
  in a condition.\<close>

datatype path = PathStr string | PathLike string

record parser =
  src :: "string option"
  src_path :: "path option"
  encoding :: string
  possible_errors :: "possible_error list"

text \<open>The generator's frame: \<open>self\<close> and the local variables of
  \<open>_parse_source_blocks\<close>.\<close>

record scan_state =
  self :: parser
  in_block :: bool
  block_name :: "string option"
  block_data :: "string list"
  consumed_blocks :: "string set"

text \<open>One iteration of \<open>for line in iterable_src\<close>: the events it produces (blocks
  yielded, warnings issued) and the next frame, or the exception raised.\<close>

definition scan_line :: "scan_state \<Rightarrow> string \<Rightarrow> error + (event list \<times> scan_state)" where
  "scan_line s line =
    (if in_block s then
       (if \<not> (rstrip line = ''#'' \<or> startswith line ''# '') then
          Inr ([Warn (UnclosedBlock (block_name s))],
               s\<lparr>in_block := False, block_name := None, block_data := []\<rparr>)
        else if rstrip line = ''# ///'' then
          Inr ([Yield (block_name s) (concat (block_data s))],
               s\<lparr>in_block := False, block_name := None, block_data := []\<rparr>)
        else
          (let s1 = (if startswith line ''# /// '' then
                       s\<lparr>self := (self s)\<lparr>possible_errors := possible_errors (self s) @
                              [NewBlockBeforeClosed (strip (drop 5 line)) (block_name s)]\<rparr>\<rparr>
                     else s)
           in Inr ([], s1\<lparr>block_data := block_data s1 @ [removeprefix (drop 1 line) '' '']\<rparr>)))
     else
       (if startswith line ''#'' then
          (let line1 = rstrip line in
           if line1 \<noteq> ''# ///'' \<and> startswith line1 ''# /// '' then
             (let line2 = removeprefix (drop 1 line1) '' '';
                  name = strip (drop 4 line2)
              in if name \<in> consumed_blocks s then Inl (ValueError (MultipleBlocks name))
                 else
                   (let ws = (if name = ''pyproject.toml''
                              then [Warn (ShouldBePyproject name)] else []);
                        s1 = s\<lparr>block_name := Some name\<rparr>
                    in if is_valid_type name then
                         Inr (ws, s1\<lparr>consumed_blocks := insert name (consumed_blocks s1),
                                      in_block := True\<rparr>)
                       else Inr (ws, s1)))
           else Inr ([], s))
        else Inr ([], s)))"

text \<open>The loop over the lines. An exception ends it; the frame in the result is the
  one the failing iteration started from.\<close>

fun scan_lines :: "scan_state \<Rightarrow> string list \<Rightarrow> event list \<times> scan_state \<times> error option" where
  "scan_lines s [] = ([], s, None)"
| "scan_lines s (line # rest) =
     (case scan_line s line of
        Inl e \<Rightarrow> ([], s, Some e)
      | Inr (evs, s1) \<Rightarrow>
          (case scan_lines s1 rest of (evs', s2, r) \<Rightarrow> (evs @ evs', s2, r)))"

text \<open>The frame at the first iteration: line 120 has emptied \<open>self.possible_errors\<close>.\<close>

definition start :: "parser \<Rightarrow> scan_state" where
  "start p = \<lparr>self = p\<lparr>possible_errors := []\<rparr>, in_block = False, block_name = None,
              block_data = [], consumed_blocks = {}\<rparr>"

text \<open>\<open>_parse_source_blocks\<close> run to its end: every event in order, the exception that
  ended it if one did, and the parser object afterwards.\<close>

definition parse_source_blocks ::
    "parser \<Rightarrow> string list \<Rightarrow> event list \<times> error option \<times> parser" where
  "parse_source_blocks p iterable_src =
     (case scan_lines (start p) iterable_src of
        (evs, s, Some e) \<Rightarrow> (evs, Some e, self s)
      | (evs, s, None) \<Rightarrow>
          (evs @ (if in_block s then [Warn (UnclosedBlock (block_name s))] else []),
           None, self s))"

text \<open>The blocks and the warnings among the events.\<close>

definition yielded :: "event list \<Rightarrow> (string option \<times> string) list" where
  "yielded evs = concat (map (\<lambda>ev. case ev of Yield n t \<Rightarrow> [(n, t)] | Warn w \<Rightarrow> []) evs)"

definition warned :: "event list \<Rightarrow> warning list" where
  "warned evs = concat (map (\<lambda>ev. case ev of Yield n t \<Rightarrow> [] | Warn w \<Rightarrow> [w]) evs)"

section \<open>The metadata facade\<close>

text \<open>The truth value of \<open>src\<close> and of \<open>src_path\<close> in a condition: \<open>None\<close> and the
  empty string are false.\<close>

definition truthy_src :: "string option \<Rightarrow> bool" where
  "truthy_src x = (case x of None \<Rightarrow> False | Some t \<Rightarrow> t \<noteq> [])"

definition truthy_path :: "path option \<Rightarrow> bool" where
  "truthy_path x = (case x of None \<Rightarrow> False | Some (PathStr t) \<Rightarrow> t \<noteq> [] | Some (PathLike t) \<Rightarrow> True)"

text \<open>\<open>__init__\<close>, with the two class methods that call it.\<close>

definition init :: "string option \<Rightarrow> path option \<Rightarrow> string \<Rightarrow> error + parser" where
  "init src_arg src_path_arg encoding_arg =
     (if truthy_src src_arg \<and> truthy_path src_path_arg then Inl (ValueError ProvideOnlyOne)
      else if \<not> (truthy_src src_arg \<or> truthy_path src_path_arg) then Inl (ValueError MustProvideOne)
      else Inr \<lparr>src = src_arg, src_path = src_path_arg, encoding = encoding_arg,
                possible_errors = []\<rparr>)"

definition from_path :: "path \<Rightarrow> string \<Rightarrow> error + parser" where
  "from_path p enc = init None (Some p) enc"

definition from_string :: "string \<Rightarrow> error + parser" where
  "from_string txt = init (Some txt) None ''utf-8''"

text \<open>Iterating over \<open>io.StringIO(src)\<close>: the text cut after each line feed, the line
  feeds kept.\<close>

fun stringio_lines :: "string \<Rightarrow> string list" where
  "stringio_lines [] = []"
| "stringio_lines (c # cs) =
     (if c = CHR 0x0A then [c] # stringio_lines cs
      else (case stringio_lines cs of [] \<Rightarrow> [[c]] | l # ls \<Rightarrow> (c # l) # ls))"

text \<open>What the structured-config decoder returns: TOML values. \<open>TOther\<close> stands for
  a float or a date-time value, of which the code uses the truth value only.\<close>

datatype toml =
    TString string
  | TInteger int
  | TBoolean bool
  | TOther bool
  | TArray "toml list"
  | TTable "(string \<times> toml) list"



text \<open>The collaborators: opening a file for reading (its lines, or the exception),
  \<open>tomllib.loads\<close> (\<open>Inl\<close> is the message of a \<open>TOMLDecodeError\<close>), and the two
  constructors of \<open>packaging\<close>.\<close>

record ('s, 'r) env =
  open_text :: "path \<Rightarrow> string \<Rightarrow> error + string list"
  tomllib_loads :: "string \<Rightarrow> string + (string \<times> toml) list"
  SpecifierSet :: "toml \<Rightarrow> error + 's"
  Requirement :: "toml \<Rightarrow> error + 'r"

text \<open>A call of the facade: the warnings issued, the parser object afterwards, and
  the value returned or the exception.\<close>

type_synonym 'a outcome = "warning list \<times> parser \<times> (error + 'a)"

definition iter_raw_metadata_blocks ::
    "('s, 'r) env \<Rightarrow> parser \<Rightarrow> event list \<times> error option \<times> parser" where
  "iter_raw_metadata_blocks E p =
     (if truthy_src (src p) then
        (case src p of Some txt \<Rightarrow> parse_source_blocks p (stringio_lines txt)
                     | None \<Rightarrow> ([], None, p))
      else if truthy_path (src_path p) then
        (case src_path p of
           Some f \<Rightarrow> (case open_text E f (encoding p) of
                        Inl e \<Rightarrow> ([], Some e, p)
                      | Inr ls \<Rightarrow> parse_source_blocks p ls)
         | None \<Rightarrow> ([], None, p))
      else ([], None, p))"

text \<open>\<open>get_first_metadata_block\<close> takes the blocks from the generator one at a time and
  returns at the first whose name matches, so the scan is run only as far as the line
  that closes that block. \<open>consume name evs\<close> is its loop over the events of one
  iteration of the scan: the warnings seen, and the text to return if a block matches.
  \<open>first_block\<close> is the scan driven that way: it ends at a match, at the exception the
  scan raises, or at the end of the input, where the generator finishes (lines 166 to
  170) and the \<open>KeyError\<close> of line 199 is raised.\<close>

fun consume :: "string \<Rightarrow> event list \<Rightarrow> warning list \<times> string option" where
  "consume name [] = ([], None)"
| "consume name (Warn w # evs) = (case consume name evs of (ws, r) \<Rightarrow> (w # ws, r))"
| "consume name (Yield bn block_text # evs) =
     (if bn = Some name then ([], Some block_text) else consume name evs)"

fun first_block :: "string \<Rightarrow> scan_state \<Rightarrow> string list \<Rightarrow> string outcome" where
  "first_block name s [] =
     (if in_block s then [UnclosedBlock (block_name s)] else [], self s, Inl (KeyError name))"
| "first_block name s (line # rest) =
     (case scan_line s line of
        Inl e \<Rightarrow> ([], self s, Inl e)
      | Inr (evs, s1) \<Rightarrow>
          (case consume name evs of
             (ws, Some block_text) \<Rightarrow> (ws, self s1, Inr block_text)
           | (ws, None) \<Rightarrow>
               (case first_block name s1 rest of (ws', p', r) \<Rightarrow> (ws @ ws', p', r))))"

definition get_first_metadata_block ::
    "('s, 'r) env \<Rightarrow> parser \<Rightarrow> string \<Rightarrow> string outcome" where
  "get_first_metadata_block E p name =
     (if truthy_src (src p) then
        (case src p of Some txt \<Rightarrow> first_block name (start p) (stringio_lines txt)
                     | None \<Rightarrow> ([], p, Inl (KeyError name)))
      else if truthy_path (src_path p) then
        (case src_path p of
           Some f \<Rightarrow> (case open_text E f (encoding p) of
                        Inl e \<Rightarrow> ([], p, Inl e)
                      | Inr ls \<Rightarrow> first_block name (start p) ls)
         | None \<Rightarrow> ([], p, Inl (KeyError name)))
      else ([], p, Inl (KeyError name)))"

definition metadata_blocks ::
    "('s, 'r) env \<Rightarrow> parser \<Rightarrow> (string option \<rightharpoonup> string) outcome" where
  "metadata_blocks E p =
     (case iter_raw_metadata_blocks E p of
        (evs, Some e, p') \<Rightarrow> (warned evs, p', Inl e)
      | (evs, None, p') \<Rightarrow> (warned evs, p', Inr (map_of (rev (yielded evs)))))"














section \<open>Vocabulary of the claims\<close>

text \<open>The guards of the loop body, named. \<open>opener_name line\<close> is the name that the
  branch for a line outside a block (lines 152 to 156) computes, when its two conditions
  hold; \<open>interior line\<close> says that a line met inside a block takes the last branch
  (lines 140 to 150): it is accepted as a comment line and it is not the closing line.\<close>

definition opener_name :: "string \<Rightarrow> string option" where
  "opener_name line =
     (if startswith line ''#'' \<and> rstrip line \<noteq> ''# ///'' \<and> startswith (rstrip line) ''# /// ''
      then Some (strip (drop 4 (removeprefix (drop 1 (rstrip line)) '' '')))
      else None)"

definition closer :: "string \<Rightarrow> bool" where
  "closer line = (rstrip line = ''# ///'')"

definition comment_line :: "string \<Rightarrow> bool" where
  "comment_line line = (rstrip line = ''#'' \<or> startswith line ''# '')"

definition interior :: "string \<Rightarrow> bool" where
  "interior line = (comment_line line \<and> \<not> closer line)"

text \<open>The diagnostics that the interior lines of a block named \<open>bn\<close> append.\<close>

definition nested_openers :: "string option \<Rightarrow> string list \<Rightarrow> possible_error list" where
  "nested_openers bn ls =
     map (\<lambda>l. NewBlockBeforeClosed (strip (drop 5 l)) bn)
         (filter (\<lambda>l. startswith l ''# /// '') ls)"

text \<open>The spec's words for the text kept from an interior line: exactly one leading
  comment character removed, then at most one space.\<close>

fun spec_strip_comment :: "string \<Rightarrow> string" where
  "spec_strip_comment [] = []"
| "spec_strip_comment (c # rest) =
     (case rest of [] \<Rightarrow> [] | d # rest' \<Rightarrow> if d = CHR '' '' then rest' else rest)"

text \<open>The frame after a block was closed or abandoned.\<close>

definition left_block :: "scan_state \<Rightarrow> scan_state" where
  "left_block s = s\<lparr>in_block := False, block_name := None, block_data := []\<rparr>"

text \<open>The frame after an opening line with the name \<open>nm\<close> and the interior lines
  \<open>body\<close>, met from the frame \<open>s\<close>.\<close>

definition opened :: "scan_state \<Rightarrow> string \<Rightarrow> string list \<Rightarrow> scan_state" where
  "opened s nm body =
     s\<lparr>self := (self s)\<lparr>possible_errors :=
            possible_errors (self s) @ nested_openers (Some nm) body\<rparr>,
       in_block := True, block_name := Some nm,
       block_data := map (\<lambda>l. removeprefix (drop 1 l) '' '') body,
       consumed_blocks := insert nm (consumed_blocks s)\<rparr>"

text \<open>The example source of the spec, and the raw text it gives for its block.\<close>

definition example_source :: string where
  "example_source = ''# /// pyproject\<newline># [run]\<newline># dependencies = ['' @ [CHR 0x22] @
     ''requests'' @ [CHR 0x22] @ '']\<newline># ///\<newline>''"

definition example_text :: string where
  "example_text = ''[run]\<newline>dependencies = ['' @ [CHR 0x22] @ ''requests'' @ [CHR 0x22] @
     '']\<newline>''"

text \<open>The test source \<open>tests/test_data/multiple_opening_lines.py\<close>, line by line, and
  the text its \<open>output\<close> gives for the block \<open>pyproject\<close>.\<close>

definition multiple_opening_lines :: "string list" where
  "multiple_opening_lines =
     [''# /// pyproject\<newline>'',
      ''# [run]\<newline>'',
      ''# dependencies = ['' @ [CHR 0x22] @ ''requests'' @ [CHR 0x22] @ '']\<newline>'',
      ''# /// pyproject\<newline>'',
      ''# requires-python = '' @ [CHR 0x22] @ ''>=3.11'' @ [CHR 0x22] @ ''\<newline>'',
      ''# ///\<newline>'',
      ''\<newline>'',
      ''import textwrap\<newline>'',
      ''\<newline>'',
      ''output = {\<newline>'',
      ''    '' @ [CHR 0x22] @ ''pyproject'' @ [CHR 0x22] @ '':\<newline>'',
      ''        textwrap.dedent('' @ [CHR 0x22, CHR 0x22, CHR 0x22] @ ''\<newline>'',
      ''        [run]\<newline>'',
      ''        dependencies = ['' @ [CHR 0x22] @ ''requests'' @ [CHR 0x22] @ '']\<newline>'',
      ''        /// pyproject\<newline>'',
      ''        requires-python = '' @ [CHR 0x22] @ ''>=3.11'' @ [CHR 0x22] @ ''\<newline>'',
      ''        '' @ [CHR 0x22, CHR 0x22, CHR 0x22] @ '').lstrip()\<newline>'',
      ''}\<newline>'',
      ''\<newline>'',
      ''is_error = False\<newline>'',
      ''\<newline>'',
      ''# Internals\<newline>'',
      ''strict_error = False\<newline>'',
      ''exact_error = None'']"

definition multiple_opening_lines_output :: string where
  "multiple_opening_lines_output =
     ''[run]\<newline>'' @
     ''dependencies = ['' @ [CHR 0x22] @ ''requests'' @ [CHR 0x22] @ '']\<newline>'' @
     ''/// pyproject\<newline>'' @
     ''requires-python = '' @ [CHR 0x22] @ ''>=3.11'' @ [CHR 0x22] @ ''\<newline>''"

text \<open>\<open>scanned_source E p ls\<close>: the lines that \<open>iter_raw_metadata_blocks\<close> hands to
  the scanner for the parser \<open>p\<close> are \<open>ls\<close> (the lines of the string, or of the file
  when it opens).\<close>

definition scanned_source :: "('s, 'r) env \<Rightarrow> parser \<Rightarrow> string list \<Rightarrow> bool" where
  "scanned_source E p ls =
     (if truthy_src (src p) then
        (case src p of Some txt \<Rightarrow> stringio_lines txt = ls | None \<Rightarrow> False)
      else if truthy_path (src_path p) then
        (case src_path p of
           Some f \<Rightarrow> open_text E f (encoding p) = Inr ls
         | None \<Rightarrow> False)
      else False)"

text \<open>Collaborators that refuse every call, for sources given as a string with no
  block to decode.\<close>

definition no_collaborators :: "(unit, unit) env" where
  "no_collaborators =
     \<lparr>open_text = (\<lambda>f enc. Inl OSError), tomllib_loads = (\<lambda>raw. Inl []),
      SpecifierSet = (\<lambda>v. Inl InvalidSpecifier), Requirement = (\<lambda>v. Inl InvalidRequirement)\<rparr>"










text \<open>What holds of every frame the loop reaches: the names recorded as seen are valid
  ones, and inside a block the name is one of them.\<close>

definition frame_ok :: "scan_state \<Rightarrow> bool" where
  "frame_ok s = ((\<forall>n \<in> consumed_blocks s. is_valid_type n \<and> n \<noteq> []) \<and>
                 (in_block s \<longrightarrow> (\<exists>n. block_name s = Some n \<and> n \<in> consumed_blocks s)) \<and>
                 (\<not> in_block s \<longrightarrow> block_data s = []))"

section \<open>Facts about the string operations\<close>

lemma rstrip_decomp: "\<exists>ws. txt = rstrip txt @ ws \<and> (\<forall>c\<in>set ws. isspace c)"
proof -
  have "rev txt = takeWhile isspace (rev txt) @ dropWhile isspace (rev txt)" by simp
  then have "txt = rev (dropWhile isspace (rev txt)) @ rev (takeWhile isspace (rev txt))"
    by (metis rev_append rev_rev_ident)
  moreover have "\<forall>c\<in>set (rev (takeWhile isspace (rev txt))). isspace c"
    by (auto dest: set_takeWhileD)
  ultimately show ?thesis unfolding rstrip_def by blast
qed

lemma rstrip_append_space: "\<forall>c\<in>set ws. isspace c \<Longrightarrow> rstrip (x @ ws) = rstrip x"
  unfolding rstrip_def using dropWhile_append2[of "rev ws" isspace "rev x"] by simp

lemma rstrip_nonspace_last: "x \<noteq> [] \<Longrightarrow> \<not> isspace (last x) \<Longrightarrow> rstrip x = x"
  unfolding rstrip_def by (cases x rule: rev_cases) auto

lemma rstrip_last: "rstrip x \<noteq> [] \<Longrightarrow> \<not> isspace (last (rstrip x))"
  unfolding rstrip_def
  by (metis (no_types, lifting) hd_dropWhile last_rev rev_is_Nil_conv)

lemma rstrip_eq_startswith: "rstrip l = pre \<Longrightarrow> startswith l pre"
  using rstrip_decomp[of l] unfolding startswith_def by (metis append_eq_conv_conj)

lemma strip_all_space: "\<forall>c\<in>set ws. isspace c \<Longrightarrow> strip ws = []"
proof -
  assume "\<forall>c\<in>set ws. isspace c"
  then have d: "dropWhile isspace ws = []" by (metis dropWhile_eq_Nil_conv)
  show ?thesis unfolding strip_def lstrip_def rstrip_def d by simp
qed

lemma strip_space_Cons: "isspace c \<Longrightarrow> strip (c # r) = strip r"
  by (simp add: strip_def lstrip_def)

lemma strip_nonempty: "r \<noteq> [] \<Longrightarrow> \<not> isspace (last r) \<Longrightarrow> strip r \<noteq> []"
proof -
  assume a: "r \<noteq> []" "\<not> isspace (last r)"
  then have "last r \<in> set r" by simp
  with a have "dropWhile isspace r \<noteq> []" by (metis dropWhile_eq_Nil_conv)
  moreover have "last (dropWhile isspace r) = last r"
    using calculation by (metis append_self_conv last_appendR takeWhile_dropWhile_id)
  ultimately show ?thesis using a
    by (simp add: strip_def lstrip_def rstrip_nonspace_last)
qed

lemma rstrip_closer_iff: "rstrip (''# ///'' @ r) = ''# ///'' \<longleftrightarrow> (\<forall>c\<in>set r. isspace c)"
proof
  assume "rstrip (''# ///'' @ r) = ''# ///''"
  then obtain ws where "''# ///'' @ r = ''# ///'' @ ws" "\<forall>c\<in>set ws. isspace c"
    using rstrip_decomp[of "''# ///'' @ r"] by metis
  then show "\<forall>c\<in>set r. isspace c" by simp
next
  assume "\<forall>c\<in>set r. isspace c"
  then have "rstrip (''# ///'' @ r) = rstrip ''# ///''" by (rule rstrip_append_space)
  also have "\<dots> = ''# ///''" by (rule rstrip_nonspace_last) (simp_all add: isspace_def)
  finally show "rstrip (''# ///'' @ r) = ''# ///''" .
qed

lemma removeprefix_spec: "removeprefix (drop 1 l) '' '' = spec_strip_comment l"
  by (cases l) (auto simp: removeprefix_def startswith_def split: list.splits)

lemma opener_name_nonempty: "opener_name line = Some n \<Longrightarrow> n \<noteq> []"
proof -
  assume a: "opener_name line = Some n"
  let ?l = "rstrip line"
  from a have sw: "startswith ?l ''# /// ''"
    and n: "n = strip (drop 4 (removeprefix (drop 1 ?l) '' ''))"
    by (auto simp: opener_name_def split: if_splits)
  from sw obtain r where l: "?l = ''# /// '' @ r"
    unfolding startswith_def by (metis append_take_drop_id)
  then have ne: "?l \<noteq> []" by simp
  have nsp: "\<not> isspace (last ?l)" using rstrip_last[OF ne] .
  have "r \<noteq> []" using nsp l by (auto simp: isspace_def)
  with nsp l have "\<not> isspace (last r)" by simp
  with \<open>r \<noteq> []\<close> have "strip r \<noteq> []" by (rule strip_nonempty)
  moreover have "n = strip r" using n l by (simp add: removeprefix_def startswith_def)
  ultimately show ?thesis by simp
qed

section \<open>Facts about the loop\<close>

lemma scan_lines_append:
  "scan_lines s (xs @ ys) =
     (case scan_lines s xs of
        (evs, s1, Some e) \<Rightarrow> (evs, s1, Some e)
      | (evs, s1, None) \<Rightarrow> (case scan_lines s1 ys of (evs', s2, r) \<Rightarrow> (evs @ evs', s2, r)))"
  by (induction xs arbitrary: s) (auto split: sum.splits prod.splits option.splits)

lemma scan_line_interior:
  "in_block s \<Longrightarrow> interior line \<Longrightarrow>
   scan_line s line =
     Inr ([], s\<lparr>self := (self s)\<lparr>possible_errors :=
                   possible_errors (self s) @ nested_openers (block_name s) [line]\<rparr>,
               block_data := block_data s @ [removeprefix (drop 1 line) '' '']\<rparr>)"
  by (auto simp: scan_line_def interior_def comment_line_def closer_def nested_openers_def Let_def)

lemma scan_lines_interior:
  "in_block s \<Longrightarrow> \<forall>l\<in>set ls. interior l \<Longrightarrow>
   scan_lines s ls =
     ([], s\<lparr>self := (self s)\<lparr>possible_errors :=
                 possible_errors (self s) @ nested_openers (block_name s) ls\<rparr>,
             block_data := block_data s @ map (\<lambda>l. removeprefix (drop 1 l) '' '') ls\<rparr>, None)"
proof (induction ls arbitrary: s)
  case Nil
  then show ?case by (simp add: nested_openers_def)
next
  case (Cons l ls)
  let ?s1 = "s\<lparr>self := (self s)\<lparr>possible_errors :=
                  possible_errors (self s) @ nested_openers (block_name s) [l]\<rparr>,
               block_data := block_data s @ [removeprefix (drop 1 l) '' '']\<rparr>"
  have 1: "scan_line s l = Inr ([], ?s1)" using Cons.prems by (simp add: scan_line_interior)
  have 2: "in_block ?s1" using Cons.prems by simp
  have 3: "\<forall>l\<in>set ls. interior l" using Cons.prems by simp
  show ?case using Cons.IH[OF 2 3] 1 by (simp add: nested_openers_def)
qed

lemma scan_line_outside:
  "\<not> in_block s \<Longrightarrow>
   scan_line s line =
     (case opener_name line of
        None \<Rightarrow> Inr ([], s)
      | Some name \<Rightarrow>
          if name \<in> consumed_blocks s then Inl (ValueError (MultipleBlocks name))
          else if is_valid_type name then
            Inr ([], s\<lparr>block_name := Some name,
                       consumed_blocks := insert name (consumed_blocks s), in_block := True\<rparr>)
          else Inr (if name = ''pyproject.toml'' then [Warn (ShouldBePyproject name)] else [],
                    s\<lparr>block_name := Some name\<rparr>))"
  by (auto simp: scan_line_def opener_name_def Let_def is_valid_type_def valid_type_def)

lemma closer_comment_line: "closer line \<Longrightarrow> comment_line line"
proof -
  assume "closer line"
  then obtain ws where "line = ''# ///'' @ ws"
    using rstrip_decomp[of line] unfolding closer_def by metis
  then show ?thesis by (simp add: comment_line_def startswith_def)
qed

lemma scan_line_abandon:
  "in_block s \<Longrightarrow> \<not> comment_line line \<Longrightarrow>
   scan_line s line = Inr ([Warn (UnclosedBlock (block_name s))], left_block s)"
  by (simp add: scan_line_def comment_line_def left_block_def)

lemma scan_line_close:
  "in_block s \<Longrightarrow> closer line \<Longrightarrow>
   scan_line s line = Inr ([Yield (block_name s) (concat (block_data s))], left_block s)"
  using closer_comment_line[of line]
  by (simp add: scan_line_def comment_line_def closer_def left_block_def)

lemma line_cases:
  obtains (abandon) "\<not> comment_line line" | (close) "closer line" | (interior) "interior line"
  unfolding interior_def by blast

lemma frame_ok_start: "frame_ok (start p)"
  by (simp add: frame_ok_def start_def)

lemma frame_ok_left_block: "frame_ok s \<Longrightarrow> frame_ok (left_block s)"
  by (simp add: frame_ok_def left_block_def)

lemma scan_line_frame_ok:
  "frame_ok s \<Longrightarrow> scan_line s line = Inr (evs, s') \<Longrightarrow> frame_ok s'"
proof (cases "in_block s")
  case True
  assume a: "frame_ok s" "scan_line s line = Inr (evs, s')"
  show ?thesis
  proof (cases line rule: line_cases)
    case abandon
    with a True show ?thesis by (auto simp: scan_line_abandon frame_ok_left_block)
  next
    case close
    with a True show ?thesis by (auto simp: scan_line_close frame_ok_left_block)
  next
    case interior
    from a(2) have "s' = s\<lparr>self := (self s)\<lparr>possible_errors :=
                   possible_errors (self s) @ nested_openers (block_name s) [line]\<rparr>,
               block_data := block_data s @ [removeprefix (drop 1 line) '' '']\<rparr>"
      by (simp add: scan_line_interior[OF True interior])
    with a(1) True show ?thesis by (simp add: frame_ok_def)
  qed
next
  case False
  assume a: "frame_ok s" "scan_line s line = Inr (evs, s')"
  show ?thesis
  proof (cases "opener_name line")
    case None
    with a False show ?thesis by (simp add: scan_line_outside)
  next
    case (Some n)
    then have ne: "n \<noteq> []" by (rule opener_name_nonempty)
    from a(2) False Some have "n \<notin> consumed_blocks s"
      by (auto simp: scan_line_outside split: if_splits)
    show ?thesis
    proof (cases "is_valid_type n")
      case True
      with a(2) False Some \<open>n \<notin> consumed_blocks s\<close>
      have "s' = s\<lparr>block_name := Some n,
                       consumed_blocks := insert n (consumed_blocks s), in_block := True\<rparr>"
        by (simp add: scan_line_outside)
      with a(1) True ne show ?thesis by (simp add: frame_ok_def)
    next
      case nv: False
      with a(2) False Some \<open>n \<notin> consumed_blocks s\<close>
      have "s' = s\<lparr>block_name := Some n\<rparr>"
        by (simp add: scan_line_outside)
      with a(1) False show ?thesis by (simp add: frame_ok_def)
    qed
  qed
qed

lemma scan_lines_frame_ok:
  "frame_ok s \<Longrightarrow> scan_lines s ls = (evs, s', r) \<Longrightarrow> frame_ok s'"
proof (induction ls arbitrary: s evs r)
  case Nil
  then show ?case by simp
next
  case (Cons l ls)
  show ?case
  proof (cases "scan_line s l")
    case (Inl e)
    with Cons.prems show ?thesis by simp
  next
    case (Inr b)
    obtain ev1 s1 where b: "b = (ev1, s1)" by (cases b)
    obtain ev2 s2 r2 where rec: "scan_lines s1 ls = (ev2, s2, r2)" by (cases "scan_lines s1 ls")
    have ok1: "frame_ok s1" using Cons.prems(1) Inr b by (auto intro: scan_line_frame_ok)
    have "s2 = s'" using Cons.prems(2) Inr b rec by simp
    with Cons.IH[OF ok1, of ev2 r2] rec show ?thesis by simp
  qed
qed

lemma reached_frame_ok: "scan_lines (start p) ls = (evs, s, r) \<Longrightarrow> frame_ok s"
  using frame_ok_start scan_lines_frame_ok by blast

lemma scan_lines_step:
  "scan_line s line = Inr (ev, s1) \<Longrightarrow>
   scan_lines s (line # rest) = (case scan_lines s1 rest of (evs', s2, r) \<Rightarrow> (ev @ evs', s2, r))"
  by simp

lemma open_block_run:
  assumes "\<not> in_block s" and "block_data s = []" and "opener_name opener = Some nm"
    and "nm \<notin> consumed_blocks s" and "is_valid_type nm" and "\<forall>l\<in>set body. interior l"
  shows "scan_lines s (opener # body) = ([], opened s nm body, None)"
proof -
  let ?s1 = "s\<lparr>block_name := Some nm,
                consumed_blocks := insert nm (consumed_blocks s), in_block := True\<rparr>"
  have 1: "scan_line s opener = Inr ([], ?s1)"
    using assms(1,3,4,5) by (simp add: scan_line_outside)
  have 2: "in_block ?s1" by simp
  have 3: "scan_lines ?s1 body = ([], opened s nm body, None)"
    unfolding scan_lines_interior[OF 2 assms(6)] using assms(2) by (simp add: opened_def)
  show ?thesis using scan_lines_step[OF 1, of body] 3 by simp
qed

lemma in_block_opened: "in_block (opened s nm body)"
  by (simp add: opened_def)

lemma block_name_opened: "block_name (opened s nm body) = Some nm"
  by (simp add: opened_def)

lemma removeprefix_spec_Suc: "removeprefix (drop (Suc 0) l) '' '' = spec_strip_comment l"
  using removeprefix_spec[of l] by simp

lemma block_text_opened:
  "concat (block_data (opened s nm body)) = concat (map spec_strip_comment body)"
  by (simp add: opened_def removeprefix_spec_Suc)

lemma scan_lines_append_ok:
  "scan_lines s xs = (evs, s1, None) \<Longrightarrow>
   scan_lines s (xs @ ys) = (case scan_lines s1 ys of (evs', s2, r) \<Rightarrow> (evs @ evs', s2, r))"
  by (simp add: scan_lines_append)

lemma scan_line_yield_valid:
  assumes "frame_ok s" and "scan_line s line = Inr (evs, s')" and "Yield bn t \<in> set evs"
  shows "\<exists>n. bn = Some n \<and> n \<noteq> [] \<and> is_valid_type n"
proof (cases "in_block s")
  case True
  show ?thesis
  proof (cases line rule: line_cases)
    case abandon
    with assms True show ?thesis by (auto simp: scan_line_abandon)
  next
    case close
    with assms(2,3) True have "bn = block_name s" by (auto simp: scan_line_close)
    with assms(1) True show ?thesis by (auto simp: frame_ok_def)
  next
    case interior
    with assms True show ?thesis by (auto simp: scan_line_interior)
  qed
next
  case False
  with assms(2,3) show ?thesis
    by (auto simp: scan_line_outside split: option.splits if_splits)
qed

lemma scan_lines_yield_valid:
  "frame_ok s \<Longrightarrow> scan_lines s ls = (evs, s', r) \<Longrightarrow> Yield bn t \<in> set evs \<Longrightarrow>
   \<exists>n. bn = Some n \<and> n \<noteq> [] \<and> is_valid_type n"
proof (induction ls arbitrary: s evs)
  case Nil
  then show ?case by simp
next
  case (Cons l ls)
  show ?case
  proof (cases "scan_line s l")
    case (Inl e)
    with Cons.prems show ?thesis by simp
  next
    case (Inr b)
    obtain ev1 s1 where b: "b = (ev1, s1)" by (cases b)
    obtain ev2 s2 r2 where rec: "scan_lines s1 ls = (ev2, s2, r2)" by (cases "scan_lines s1 ls")
    have ok1: "frame_ok s1" using Cons.prems(1) Inr b by (auto intro: scan_line_frame_ok)
    have "evs = ev1 @ ev2" using Cons.prems(2) Inr b rec by simp
    with Cons.prems(3) consider "Yield bn t \<in> set ev1" | "Yield bn t \<in> set ev2" by auto
    then show ?thesis
    proof cases
      case 1
      with Cons.prems(1) Inr b show ?thesis by (auto intro: scan_line_yield_valid)
    next
      case 2
      with Cons.IH[OF ok1, of ev2] rec have
        "\<exists>n. bn = Some n \<and> n \<noteq> [] \<and> is_valid_type n"
        using Cons.prems(2) Inr b by simp
      then show ?thesis .
    qed
  qed
qed

lemma parse_yield_valid:
  assumes "Yield bn t \<in> set (fst (parse_source_blocks p ls))"
  shows "\<exists>n. bn = Some n \<and> n \<noteq> [] \<and> is_valid_type n"
proof -
  obtain evs s r where run: "scan_lines (start p) ls = (evs, s, r)"
    by (cases "scan_lines (start p) ls")
  from assms have "Yield bn t \<in> set evs"
    unfolding parse_source_blocks_def run by (cases r) (auto split: if_splits)
  with frame_ok_start run show ?thesis by (rule scan_lines_yield_valid)
qed

lemma not_valid_pyproject_toml: "\<not> is_valid_type ''pyproject.toml''"
  by (simp add: is_valid_type_def valid_type_def)

lemma opener_name_blank: "\<forall>c\<in>set ws. isspace c \<Longrightarrow> opener_name (''# /// '' @ ws) = None"
proof -
  assume "\<forall>c\<in>set ws. isspace c"
  then have "\<forall>c\<in>set (CHR '' '' # ws). isspace c" by (simp add: isspace_def)
  then have "rstrip (''# ///'' @ CHR '' '' # ws) = ''# ///''" by (simp only: rstrip_closer_iff)
  then show ?thesis by (simp add: opener_name_def)
qed

lemma invalid_not_consumed: "frame_ok s \<Longrightarrow> \<not> is_valid_type nm \<Longrightarrow> nm \<notin> consumed_blocks s"
  by (auto simp: frame_ok_def)

lemma rstrip_pyproject_opener:
  "\<forall>c\<in>set ws. isspace c \<Longrightarrow> rstrip (''# /// pyproject'' @ ws) = ''# /// pyproject''"
proof -
  assume "\<forall>c\<in>set ws. isspace c"
  then have "rstrip (''# /// pyproject'' @ ws) = rstrip ''# /// pyproject''"
    by (rule rstrip_append_space)
  also have "\<dots> = ''# /// pyproject''"
    by (rule rstrip_nonspace_last) (simp_all add: isspace_def)
  finally show ?thesis .
qed

lemma opener_name_pyproject:
  assumes "\<forall>c\<in>set ws. isspace c"
  shows "opener_name (''# /// pyproject'' @ ws) = Some ''pyproject''"
proof -
  have "strip ''pyproject'' = ''pyproject''"
    by (simp add: strip_def lstrip_def rstrip_def isspace_def)
  then show ?thesis
    unfolding opener_name_def rstrip_pyproject_opener[OF assms]
    by (simp add: startswith_def removeprefix_def)
qed

lemma strip_pyproject:
  assumes "\<forall>c\<in>set ws. isspace c"
  shows "strip (''pyproject'' @ ws) = ''pyproject''"
proof -
  have "lstrip (''pyproject'' @ ws) = ''pyproject'' @ ws"
    by (simp add: lstrip_def isspace_def)
  moreover have "rstrip (''pyproject'' @ ws) = rstrip ''pyproject''"
    using assms by (rule rstrip_append_space)
  moreover have "rstrip ''pyproject'' = ''pyproject''"
    by (rule rstrip_nonspace_last) (simp_all add: isspace_def)
  ultimately show ?thesis by (simp add: strip_def)
qed

lemma interior_pyproject_opener:
  assumes "\<forall>c\<in>set ws. isspace c"
  shows "interior (''# /// pyproject'' @ ws)"
  unfolding interior_def closer_def comment_line_def rstrip_pyproject_opener[OF assms]
  by (simp add: startswith_def)

lemma nested_openers_append:
  "nested_openers bn (xs @ ys) = nested_openers bn xs @ nested_openers bn ys"
  by (simp add: nested_openers_def)

lemma nested_openers_pyproject:
  assumes "\<forall>c\<in>set ws. isspace c"
  shows "nested_openers bn [''# /// pyproject'' @ ws] = [NewBlockBeforeClosed ''pyproject'' bn]"
proof -
  have "strip (CHR '' '' # ''pyproject'' @ ws) = ''pyproject''"
    using strip_pyproject[OF assms] by (simp add: strip_space_Cons isspace_def)
  then show ?thesis by (simp add: nested_openers_def startswith_def)
qed

lemma scan_lines_inert:
  "\<not> in_block s \<Longrightarrow> \<forall>l\<in>set ls. opener_name l = None \<Longrightarrow> scan_lines s ls = ([], s, None)"
  by (induction ls) (simp_all add: scan_line_outside)

lemma not_in_block_left_block: "\<not> in_block (left_block s)"
  by (simp add: left_block_def)

lemma consumed_left_block: "consumed_blocks (left_block s) = consumed_blocks s"
  by (simp add: left_block_def)

lemma consumed_opened: "consumed_blocks (opened s nm body) = insert nm (consumed_blocks s)"
  by (simp add: opened_def)

lemma scan_line_consumed_mono:
  "scan_line s line = Inr (evs, s') \<Longrightarrow> consumed_blocks s \<subseteq> consumed_blocks s'"
proof (cases "in_block s")
  case True
  assume a: "scan_line s line = Inr (evs, s')"
  show ?thesis
  proof (cases line rule: line_cases)
    case abandon
    with a True show ?thesis by (auto simp: scan_line_abandon left_block_def)
  next
    case close
    with a True show ?thesis by (auto simp: scan_line_close left_block_def)
  next
    case interior
    with a True show ?thesis by (auto simp: scan_line_interior)
  qed
next
  case False
  assume "scan_line s line = Inr (evs, s')"
  with False show ?thesis
    by (auto simp: scan_line_outside split: option.splits if_splits)
qed

lemma scan_lines_consumed_mono:
  "scan_lines s ls = (evs, s', r) \<Longrightarrow> consumed_blocks s \<subseteq> consumed_blocks s'"
proof (induction ls arbitrary: s evs s' r)
  case Nil
  then show ?case by simp
next
  case (Cons l ls)
  show ?case
  proof (cases "scan_line s l")
    case (Inl e)
    with Cons.prems show ?thesis by simp
  next
    case (Inr b)
    obtain ev1 s1 where b: "b = (ev1, s1)" by (cases b)
    obtain ev2 s2 r2 where rec: "scan_lines s1 ls = (ev2, s2, r2)" by (cases "scan_lines s1 ls")
    have "s2 = s'" using Cons.prems Inr b rec by simp
    moreover have "consumed_blocks s \<subseteq> consumed_blocks s1"
      using Inr b by (auto dest: scan_line_consumed_mono)
    moreover have "consumed_blocks s1 \<subseteq> consumed_blocks s2" using rec by (rule Cons.IH)
    ultimately show ?thesis by simp
  qed
qed

lemma iter_raw_scanned:
  "scanned_source E p ls \<Longrightarrow> iter_raw_metadata_blocks E p = parse_source_blocks p ls"
  by (auto simp: scanned_source_def iter_raw_metadata_blocks_def split: if_splits option.splits)

lemma scan_line_possible_errors:
  assumes "scan_line s line = Inr (evs, s')"
  shows "possible_errors (self s') = possible_errors (self s) @
           (if in_block s \<and> interior line then nested_openers (block_name s) [line] else [])"
proof (cases "in_block s")
  case True
  show ?thesis
  proof (cases line rule: line_cases)
    case abandon
    then have "\<not> interior line" by (simp add: interior_def)
    with assms True abandon show ?thesis by (auto simp: scan_line_abandon left_block_def)
  next
    case close
    then have "\<not> interior line" by (simp add: interior_def)
    with assms True close show ?thesis by (auto simp: scan_line_close left_block_def)
  next
    case interior
    with assms True show ?thesis by (auto simp: scan_line_interior)
  qed
next
  case False
  with assms show ?thesis
    by (auto simp: scan_line_outside split: option.splits if_splits)
qed

lemma scan_lines_possible_errors:
  "scan_lines s ls = (evs, s', r) \<Longrightarrow>
   \<exists>d. possible_errors (self s') = possible_errors (self s) @ d"
proof (induction ls arbitrary: s evs s' r)
  case Nil
  then show ?case by simp
next
  case (Cons l ls)
  show ?case
  proof (cases "scan_line s l")
    case (Inl e)
    with Cons.prems show ?thesis by simp
  next
    case (Inr b)
    obtain ev1 s1 where b: "b = (ev1, s1)" by (cases b)
    obtain ev2 s2 r2 where rec: "scan_lines s1 ls = (ev2, s2, r2)" by (cases "scan_lines s1 ls")
    have "s2 = s'" using Cons.prems Inr b rec by simp
    moreover obtain d1 where "possible_errors (self s1) = possible_errors (self s) @ d1"
      using Inr b scan_line_possible_errors by blast
    moreover obtain d2 where "possible_errors (self s2) = possible_errors (self s1) @ d2"
      using Cons.IH[OF rec] by blast
    ultimately show ?thesis by simp
  qed
qed

lemma init_fails_iff:
  "(\<exists>e. init a b enc = Inl e) \<longleftrightarrow> (truthy_src a \<longleftrightarrow> truthy_path b)"
  by (auto simp: init_def)










lemma consume_append:
  "snd (consume name (evs @ evs')) =
     (case snd (consume name evs) of Some t \<Rightarrow> Some t | None \<Rightarrow> snd (consume name evs'))"
  by (induction name evs rule: consume.induct) (auto split: prod.splits option.splits)

lemma first_block_result:
  "scan_lines s ls = (evs, s', r) \<Longrightarrow>
   snd (snd (first_block name s ls)) =
     (case snd (consume name evs) of
        Some t \<Rightarrow> Inr t
      | None \<Rightarrow> (case r of Some e \<Rightarrow> Inl e | None \<Rightarrow> Inl (KeyError name)))"
proof (induction ls arbitrary: s evs s' r)
  case Nil
  then show ?case by auto
next
  case (Cons l ls)
  show ?case
  proof (cases "scan_line s l")
    case (Inl e)
    with Cons.prems show ?thesis by auto
  next
    case (Inr b)
    obtain ev1 s1 where b: "b = (ev1, s1)" by (cases b)
    from Cons.prems Inr b obtain ev2 where rec: "scan_lines s1 ls = (ev2, s', r)"
      and evs: "evs = ev1 @ ev2" by (auto split: prod.splits)
    note ih = Cons.IH[OF rec]
    obtain ws c where c: "consume name ev1 = (ws, c)" by (cases "consume name ev1")
    show ?thesis
    proof (cases c)
      case None
      obtain ws' p' r' where fb: "first_block name s1 ls = (ws', p', r')"
        by (cases "first_block name s1 ls")
      have "snd (snd (first_block name s (l # ls))) = r'"
        using Inr b c None fb by simp
      moreover have "r' = snd (snd (first_block name s1 ls))" using fb by simp
      ultimately show ?thesis using ih c None evs by (simp add: consume_append)
    next
      case (Some t)
      then show ?thesis using Inr b c evs by (simp add: consume_append)
    qed
  qed
qed

lemma get_first_scanned:
  "scanned_source E p ls \<Longrightarrow> get_first_metadata_block E p name = first_block name (start p) ls"
  by (auto simp: scanned_source_def get_first_metadata_block_def split: if_splits option.splits)

section \<open>The claims\<close>

subsection \<open>C6: an opener-like line inside an open block\<close>

text \<open>
  C6. While a block is open, a comment line made of the opener prefix \<open># /// \<close> and a
  name (any text that is not blank, a valid block name or not) neither closes nor
  replaces the block: the iteration yields nothing and raises nothing, appends exactly one
  diagnostic (the trimmed name, and the name of the open block) to
  \<open>possible_errors\<close>, and appends the line without its leading \<open>#\<close> and one space to
  the lines of the open block. Every other variable of the frame is as before.
\<close>

theorem nested_opener_is_accumulated:
  assumes "in_block s" and "strip name \<noteq> []"
  shows "scan_line s (''# /// '' @ name) =
           Inr ([], s\<lparr>self := (self s)\<lparr>possible_errors := possible_errors (self s) @
                        [NewBlockBeforeClosed (strip name) (block_name s)]\<rparr>,
                     block_data := block_data s @ [''/// '' @ name]\<rparr>)"
proof -
  let ?line = "''# /// '' @ name"
  have "\<not> (\<forall>c\<in>set (CHR '' '' # name). isspace c)"
    using assms(2) strip_all_space[of name] by auto
  then have nc: "rstrip ?line \<noteq> ''# ///''"
    using rstrip_closer_iff[of "CHR '' '' # name"] by simp
  have int: "interior ?line"
    using nc by (simp add: interior_def closer_def comment_line_def startswith_def)
  have n: "nested_openers (block_name s) [?line] = [NewBlockBeforeClosed (strip name) (block_name s)]"
    by (simp add: nested_openers_def startswith_def strip_space_Cons isspace_def)
  have r: "removeprefix (drop 1 ?line) '' '' = ''/// '' @ name"
    by (simp add: removeprefix_def startswith_def)
  show ?thesis using scan_line_interior[OF assms(1) int] n r by simp
qed

theorem nested_opener_is_accumulated_witness:
  "in_block \<lparr>self = \<lparr>src = Some ''x'', src_path = None, encoding = ''utf-8'', possible_errors = []\<rparr>,
             in_block = True, block_name = Some ''pyproject'', block_data = [''[run]\<newline>''],
             consumed_blocks = {''pyproject''}\<rparr>
   \<and> strip ''other.name\<newline>'' \<noteq> []
   \<and> scan_line \<lparr>self = \<lparr>src = Some ''x'', src_path = None, encoding = ''utf-8'', possible_errors = []\<rparr>,
             in_block = True, block_name = Some ''pyproject'', block_data = [''[run]\<newline>''],
             consumed_blocks = {''pyproject''}\<rparr> ''# /// other.name\<newline>''
       = Inr ([], \<lparr>self = \<lparr>src = Some ''x'', src_path = None, encoding = ''utf-8'',
                      possible_errors = [NewBlockBeforeClosed ''other.name'' (Some ''pyproject'')]\<rparr>,
             in_block = True, block_name = Some ''pyproject'',
             block_data = [''[run]\<newline>'', ''/// other.name\<newline>''],
             consumed_blocks = {''pyproject''}\<rparr>)"
proof -
  let ?s = "\<lparr>self = \<lparr>src = Some ''x'', src_path = None, encoding = ''utf-8'', possible_errors = []\<rparr>,
             in_block = True, block_name = Some ''pyproject'', block_data = [''[run]\<newline>''],
             consumed_blocks = {''pyproject''}\<rparr>"
  have h1: "in_block ?s" by simp
  have h2: "strip ''other.name\<newline>'' = ''other.name''"
    by (simp add: strip_def lstrip_def rstrip_def isspace_def)
  then have h3: "strip ''other.name\<newline>'' \<noteq> []" by simp
  show ?thesis using nested_opener_is_accumulated[OF h1 h3] h2 by simp
qed

subsection \<open>C7: a block that is not closed\<close>

text \<open>
  C7. Let the scan of the lines \<open>pre\<close> have ended outside a block with the events
  \<open>evs\<close>, let the next line open a block \<open>nm\<close>, and let only interior lines follow it.
  If the line after them is not a comment line the block can hold (it is not \<open>#\<close> alone
  and does not start with \<open>#\<close> and a space), the scan of the whole source is the events
  \<open>evs\<close>, then exactly one unclosed-block warning for \<open>nm\<close> and no block, then the scan
  of the remaining lines from the frame outside a block, with the accumulated lines gone.
  If the input ends instead, the scan is \<open>evs\<close> and that one warning, and it raises
  nothing. In both cases the blocks yielded earlier are the ones in \<open>evs\<close>, unchanged.
\<close>

theorem unclosed_block_is_dropped:
  assumes "scan_lines (start p) pre = (evs, s, None)" and "\<not> in_block s"
    and "opener_name opener = Some nm" and "nm \<notin> consumed_blocks s" and "is_valid_type nm"
    and "\<forall>l\<in>set body. interior l"
  shows "(\<not> comment_line bad \<longrightarrow>
            scan_lines (start p) (pre @ opener # body @ bad # rest) =
              (case scan_lines (left_block (opened s nm body)) rest of
                 (evs', s', r) \<Rightarrow> (evs @ Warn (UnclosedBlock (Some nm)) # evs', s', r)))
         \<and> parse_source_blocks p (pre @ opener # body) =
              (evs @ [Warn (UnclosedBlock (Some nm))], None, self (opened s nm body))"
proof -
  have "frame_ok s" using assms(1) by (rule reached_frame_ok)
  then have bd: "block_data s = []" using assms(2) by (simp add: frame_ok_def)
  have run: "scan_lines s (opener # body) = ([], opened s nm body, None)"
    using assms(2) bd assms(3-6) by (rule open_block_run)
  have pre: "scan_lines (start p) (pre @ opener # body) = (evs, opened s nm body, None)"
    using scan_lines_append_ok[OF assms(1), of "opener # body"] run by simp
  have eoi: "parse_source_blocks p (pre @ opener # body) =
              (evs @ [Warn (UnclosedBlock (Some nm))], None, self (opened s nm body))"
    unfolding parse_source_blocks_def pre by (simp add: in_block_opened block_name_opened)
  have bad: "\<not> comment_line bad \<Longrightarrow>
            scan_lines (start p) (pre @ opener # body @ bad # rest) =
              (case scan_lines (left_block (opened s nm body)) rest of
                 (evs', s', r) \<Rightarrow> (evs @ Warn (UnclosedBlock (Some nm)) # evs', s', r))"
  proof -
    assume nb: "\<not> comment_line bad"
    have st: "scan_line (opened s nm body) bad =
               Inr ([Warn (UnclosedBlock (Some nm))], left_block (opened s nm body))"
      using scan_line_abandon[OF in_block_opened nb, of s nm body] by (simp add: block_name_opened)
    have "scan_lines (start p) ((pre @ opener # body) @ bad # rest) =
            (case scan_lines (opened s nm body) (bad # rest) of
               (evs', s2, r) \<Rightarrow> (evs @ evs', s2, r))"
      by (rule scan_lines_append_ok[OF pre])
    also have "\<dots> = (case scan_lines (left_block (opened s nm body)) rest of
                 (evs', s', r) \<Rightarrow> (evs @ Warn (UnclosedBlock (Some nm)) # evs', s', r))"
      unfolding scan_lines_step[OF st] by (simp split: prod.splits)
    finally show ?thesis by simp
  qed
  show ?thesis using eoi bad by blast
qed

theorem unclosed_block_is_dropped_witness:
  "scan_lines (start \<lparr>src = Some ''x'', src_path = None, encoding = ''utf-8'', possible_errors = []\<rparr>) []
      = ([], start \<lparr>src = Some ''x'', src_path = None, encoding = ''utf-8'', possible_errors = []\<rparr>, None)
   \<and> \<not> in_block (start \<lparr>src = Some ''x'', src_path = None, encoding = ''utf-8'', possible_errors = []\<rparr>)
   \<and> opener_name ''# /// pyproject\<newline>'' = Some ''pyproject''
   \<and> ''pyproject'' \<notin> consumed_blocks (start \<lparr>src = Some ''x'', src_path = None, encoding = ''utf-8'', possible_errors = []\<rparr>)
   \<and> is_valid_type ''pyproject''
   \<and> interior ''# [run]\<newline>''
   \<and> \<not> comment_line ''import sys\<newline>''
   \<and> fst (scan_lines (start \<lparr>src = Some ''x'', src_path = None, encoding = ''utf-8'', possible_errors = []\<rparr>)
         [''# /// pyproject\<newline>'', ''# [run]\<newline>'', ''import sys\<newline>''])
       = [Warn (UnclosedBlock (Some ''pyproject''))]
   \<and> parse_source_blocks \<lparr>src = Some ''x'', src_path = None, encoding = ''utf-8'', possible_errors = []\<rparr>
         [''# /// pyproject\<newline>'', ''# [run]\<newline>'']
       = ([Warn (UnclosedBlock (Some ''pyproject''))], None,
          \<lparr>src = Some ''x'', src_path = None, encoding = ''utf-8'', possible_errors = []\<rparr>)"
proof -
  let ?p = "\<lparr>src = Some ''x'', src_path = None, encoding = ''utf-8'', possible_errors = []\<rparr>"
  have h1: "scan_lines (start ?p) [] = ([], start ?p, None)" by simp
  have h2: "\<not> in_block (start ?p)" by (simp add: start_def)
  have h3: "opener_name ''# /// pyproject\<newline>'' = Some ''pyproject''"
    by (simp add: opener_name_def startswith_def rstrip_def strip_def lstrip_def
        removeprefix_def isspace_def)
  have h4: "''pyproject'' \<notin> consumed_blocks (start ?p)" by (simp add: start_def)
  have h5: "is_valid_type ''pyproject''" by (simp add: is_valid_type_def valid_type_def)
  have h6: "\<forall>l\<in>set [''# [run]\<newline>'']. interior l"
    by (simp add: interior_def comment_line_def closer_def startswith_def rstrip_def isspace_def)
  have h7: "\<not> comment_line ''import sys\<newline>''"
    by (simp add: comment_line_def startswith_def rstrip_def isspace_def)
  have n: "nested_openers (Some ''pyproject'') [''# [run]\<newline>''] = []"
    by (simp add: nested_openers_def startswith_def)
  show ?thesis
    using unclosed_block_is_dropped[OF h1 h2 h3 h4 h5 h6, of "''import sys\<newline>''" "[]"]
      h1 h2 h3 h4 h5 h6 h7 n
    by (simp add: opened_def start_def)
qed

subsection \<open>C4: the raw text of a single block\<close>

text \<open>
  C4. For a source made of one opening line with a valid name, interior comment lines,
  and one closing line, the scan yields exactly one block, under that name, and issues
  no warning; the raw text of the block is the concatenation of the interior lines, each
  without exactly one leading comment character and at most one space after it, the line
  terminators kept (\<open>spec_strip_comment\<close> is that stripping, written from the spec's
  words). In particular the example source of the spec, given as a string, yields
  exactly one block named \<open>pyproject\<close> with the raw text the spec gives.
\<close>

theorem single_block_raw_text:
  assumes "opener_name opener = Some nm" and "is_valid_type nm"
    and "\<forall>l\<in>set body. interior l" and "closer c"
  shows "parse_source_blocks p (opener # body @ [c]) =
           ([Yield (Some nm) (concat (map spec_strip_comment body))], None,
            p\<lparr>possible_errors := nested_openers (Some nm) body\<rparr>)
         \<and> (case from_string example_source of
               Inl e \<Rightarrow> False
             | Inr q \<Rightarrow> iter_raw_metadata_blocks E q =
                         ([Yield (Some ''pyproject'') example_text], None, q))"
proof -
  have general: "parse_source_blocks p (opener # body @ [c]) =
           ([Yield (Some nm) (concat (map spec_strip_comment body))], None,
            p\<lparr>possible_errors := nested_openers (Some nm) body\<rparr>)"
    if a: "opener_name opener = Some nm" "is_valid_type nm" "\<forall>l\<in>set body. interior l" "closer c"
    for p opener nm body c
  proof -
    have run: "scan_lines (start p) (opener # body) = ([], opened (start p) nm body, None)"
      by (rule open_block_run) (use a in \<open>simp_all add: start_def\<close>)
    have cl: "scan_line (opened (start p) nm body) c =
                Inr ([Yield (Some nm) (concat (map spec_strip_comment body))],
                     left_block (opened (start p) nm body))"
      using scan_line_close[OF in_block_opened a(4), of "start p" nm body]
      by (simp add: block_name_opened block_text_opened)
    have "scan_lines (start p) ((opener # body) @ [c]) =
            (case scan_lines (opened (start p) nm body) [c] of
               (evs', s2, r) \<Rightarrow> ([] @ evs', s2, r))"
      by (rule scan_lines_append_ok[OF run])
    then have all: "scan_lines (start p) (opener # body @ [c]) =
            ([Yield (Some nm) (concat (map spec_strip_comment body))],
             left_block (opened (start p) nm body), None)"
      using cl by simp
    show ?thesis unfolding parse_source_blocks_def all
      by (simp add: left_block_def opened_def start_def)
  qed
  let ?q = "\<lparr>src = Some example_source, src_path = None, encoding = ''utf-8'',
             possible_errors = []\<rparr>"
  let ?dep = "''# dependencies = ['' @ [CHR 0x22] @ ''requests'' @ [CHR 0x22] @ '']\<newline>''"
  have q: "from_string example_source = Inr ?q"
    by (simp add: from_string_def init_def truthy_src_def truthy_path_def example_source_def)
  have ls: "stringio_lines example_source =
              ''# /// pyproject\<newline>'' # [''# [run]\<newline>'', ?dep] @ [''# ///\<newline>'']"
    by (simp add: example_source_def)
  have h1: "opener_name ''# /// pyproject\<newline>'' = Some ''pyproject''"
    by (simp add: opener_name_def startswith_def rstrip_def strip_def lstrip_def
        removeprefix_def isspace_def)
  have h2: "is_valid_type ''pyproject''" by (simp add: is_valid_type_def valid_type_def)
  have h3: "\<forall>l\<in>set [''# [run]\<newline>'', ?dep]. interior l"
    by (simp add: interior_def comment_line_def closer_def startswith_def rstrip_def isspace_def)
  have h4: "closer ''# ///\<newline>''"
    by (simp add: closer_def rstrip_def isspace_def)
  have n: "nested_openers (Some ''pyproject'') [''# [run]\<newline>'', ?dep] = []"
    by (simp add: nested_openers_def startswith_def)
  have t: "concat (map spec_strip_comment [''# [run]\<newline>'', ?dep]) = example_text"
    by (simp add: example_text_def)
  have "iter_raw_metadata_blocks E ?q = ([Yield (Some ''pyproject'') example_text], None, ?q)"
    unfolding iter_raw_metadata_blocks_def
    using general[OF h1 h2 h3 h4, of ?q] n t ls
    by (simp add: truthy_src_def example_source_def)
  with q have ex: "(case from_string example_source of
               Inl e \<Rightarrow> False
             | Inr q \<Rightarrow> iter_raw_metadata_blocks E q =
                         ([Yield (Some ''pyproject'') example_text], None, q))"
    by simp
  show ?thesis using general[OF assms] ex by blast
qed

theorem single_block_raw_text_witness:
  "opener_name ''# /// pyproject\<newline>'' = Some ''pyproject''
   \<and> is_valid_type ''pyproject''
   \<and> interior ''# [run]\<newline>'' \<and> interior ''#\<newline>'' \<and> interior ''#  x = 1\<newline>''
   \<and> closer ''# ///\<newline>''
   \<and> parse_source_blocks
         \<lparr>src = Some ''x'', src_path = None, encoding = ''utf-8'', possible_errors = []\<rparr>
         [''# /// pyproject\<newline>'', ''# [run]\<newline>'', ''#\<newline>'', ''#  x = 1\<newline>'',
          ''# ///\<newline>'']
       = ([Yield (Some ''pyproject'') ''[run]\<newline>\<newline> x = 1\<newline>''], None,
          \<lparr>src = Some ''x'', src_path = None, encoding = ''utf-8'', possible_errors = []\<rparr>)"
proof -
  let ?body = "[''# [run]\<newline>'', ''#\<newline>'', ''#  x = 1\<newline>'']"
  have h1: "opener_name ''# /// pyproject\<newline>'' = Some ''pyproject''"
    by (simp add: opener_name_def startswith_def rstrip_def strip_def lstrip_def
        removeprefix_def isspace_def)
  have h2: "is_valid_type ''pyproject''" by (simp add: is_valid_type_def valid_type_def)
  have h3: "\<forall>l\<in>set ?body. interior l"
    by (simp add: interior_def comment_line_def closer_def startswith_def rstrip_def isspace_def)
  have h4: "closer ''# ///\<newline>''"
    by (simp add: closer_def rstrip_def isspace_def)
  have n: "nested_openers (Some ''pyproject'') ?body = []"
    by (simp add: nested_openers_def startswith_def)
  show ?thesis
    using single_block_raw_text[OF h1 h2 h3 h4, THEN conjunct1,
        of "\<lparr>src = Some ''x'', src_path = None, encoding = ''utf-8'', possible_errors = []\<rparr>"]
      h1 h2 h3 h4 n
    by simp
qed

subsection \<open>C5: names outside the character class\<close>

text \<open>
  The claim says that an opener-like line whose name has a character outside
  \<open>[A-Za-z0-9-]\<close> is ignored silently. For the name \<open>pyproject.toml\<close> it is not: met
  outside a block, the line issues the warning of line 160.
\<close>

theorem invalid_names_counterexample:
  "opener_name ''# /// pyproject.toml\<newline>'' = Some ''pyproject.toml''
   \<and> \<not> is_valid_type ''pyproject.toml''
   \<and> scan_line (start \<lparr>src = Some ''x'', src_path = None, encoding = ''utf-8'', possible_errors = []\<rparr>)
         ''# /// pyproject.toml\<newline>''
       = Inr ([Warn (ShouldBePyproject ''pyproject.toml'')],
              (start \<lparr>src = Some ''x'', src_path = None, encoding = ''utf-8'', possible_errors = []\<rparr>)
                \<lparr>block_name := Some ''pyproject.toml''\<rparr>)"
  by (simp add: scan_line_def start_def opener_name_def startswith_def rstrip_def strip_def
      lstrip_def removeprefix_def isspace_def is_valid_type_def valid_type_def Let_def)

text \<open>
  C5, amended. Every block a scan yields has a name that is not empty and passes
  \<open>_is_valid_type\<close>. Met outside a block, in a frame the scan has reached, a line
  recognised as an opener whose name fails \<open>_is_valid_type\<close> opens no block, yields
  nothing and raises nothing; the only variable it changes is \<open>block_name\<close>, which is
  not read outside a block; and it is silent unless the name is \<open>pyproject.toml\<close>, for
  which it issues one warning. A line made of \<open># /// \<close> and nothing but white space
  is never an opener: outside a block it does nothing at all, and inside a block it is
  the closing line.
\<close>

theorem invalid_names_are_not_blocks:
  assumes "scan_lines (start p) pre = (evs, s, None)"
  shows "(\<forall>bn t. Yield bn t \<in> set (fst (parse_source_blocks p ls)) \<longrightarrow>
            (\<exists>n. bn = Some n \<and> n \<noteq> [] \<and> is_valid_type n))
         \<and> (\<not> in_block s \<and> opener_name line = Some nm \<and> \<not> is_valid_type nm \<longrightarrow>
              scan_line s line =
                Inr (if nm = ''pyproject.toml'' then [Warn (ShouldBePyproject nm)] else [],
                     s\<lparr>block_name := Some nm\<rparr>))
         \<and> ((\<forall>c\<in>set ws. isspace c) \<longrightarrow>
              scan_line s (''# /// '' @ ws) =
                (if in_block s
                 then Inr ([Yield (block_name s) (concat (block_data s))], left_block s)
                 else Inr ([], s)))"
proof -
  have ok: "frame_ok s" using assms by (rule reached_frame_ok)
  have 1: "\<forall>bn t. Yield bn t \<in> set (fst (parse_source_blocks p ls)) \<longrightarrow>
            (\<exists>n. bn = Some n \<and> n \<noteq> [] \<and> is_valid_type n)"
    using parse_yield_valid by blast
  have 2: "scan_line s line =
                Inr (if nm = ''pyproject.toml'' then [Warn (ShouldBePyproject nm)] else [],
                     s\<lparr>block_name := Some nm\<rparr>)"
    if "\<not> in_block s" "opener_name line = Some nm" "\<not> is_valid_type nm"
    using that invalid_not_consumed[OF ok that(3)] by (simp add: scan_line_outside)
  have 3: "scan_line s (''# /// '' @ ws) =
                (if in_block s
                 then Inr ([Yield (block_name s) (concat (block_data s))], left_block s)
                 else Inr ([], s))"
    if sp: "\<forall>c\<in>set ws. isspace c"
  proof (cases "in_block s")
    case True
    from sp have "\<forall>c\<in>set (CHR '' '' # ws). isspace c" by (simp add: isspace_def)
    then have "rstrip (''# ///'' @ CHR '' '' # ws) = ''# ///''" by (simp only: rstrip_closer_iff)
    then have "closer (''# /// '' @ ws)" by (simp add: closer_def)
    with True show ?thesis by (simp add: scan_line_close)
  next
    case False
    with opener_name_blank[OF sp] show ?thesis by (simp add: scan_line_outside)
  qed
  show ?thesis using 1 2 3 by blast
qed

theorem invalid_names_are_not_blocks_witness:
  "scan_lines (start \<lparr>src = Some ''x'', src_path = None, encoding = ''utf-8'', possible_errors = []\<rparr>) []
      = ([], start \<lparr>src = Some ''x'', src_path = None, encoding = ''utf-8'', possible_errors = []\<rparr>, None)
   \<and> \<not> in_block (start \<lparr>src = Some ''x'', src_path = None, encoding = ''utf-8'', possible_errors = []\<rparr>)
   \<and> opener_name ''# /// my_block\<newline>'' = Some ''my_block''
   \<and> \<not> is_valid_type ''my_block''
   \<and> isspace CHR 0x0A
   \<and> scan_line (start \<lparr>src = Some ''x'', src_path = None, encoding = ''utf-8'', possible_errors = []\<rparr>)
         ''# /// my_block\<newline>''
       = Inr ([], (start \<lparr>src = Some ''x'', src_path = None, encoding = ''utf-8'', possible_errors = []\<rparr>)
                    \<lparr>block_name := Some ''my_block''\<rparr>)
   \<and> scan_line (start \<lparr>src = Some ''x'', src_path = None, encoding = ''utf-8'', possible_errors = []\<rparr>)
         ''# /// \<newline>''
       = Inr ([], start \<lparr>src = Some ''x'', src_path = None, encoding = ''utf-8'', possible_errors = []\<rparr>)
   \<and> yielded (fst (parse_source_blocks
         \<lparr>src = Some ''x'', src_path = None, encoding = ''utf-8'', possible_errors = []\<rparr>
         [''# /// my_block\<newline>'', ''# x = 1\<newline>'', ''# ///\<newline>''])) = []"
proof -
  let ?p = "\<lparr>src = Some ''x'', src_path = None, encoding = ''utf-8'', possible_errors = []\<rparr>"
  let ?ls = "[''# /// my_block\<newline>'', ''# x = 1\<newline>'', ''# ///\<newline>'']"
  have h1: "scan_lines (start ?p) [] = ([], start ?p, None)" by simp
  have h2: "\<not> in_block (start ?p)" by (simp add: start_def)
  have h3: "opener_name ''# /// my_block\<newline>'' = Some ''my_block''"
    by (simp add: opener_name_def startswith_def rstrip_def strip_def lstrip_def
        removeprefix_def isspace_def)
  have h4: "\<not> is_valid_type ''my_block''" by (simp add: is_valid_type_def valid_type_def)
  have h5: "isspace CHR 0x0A" by (simp add: isspace_def)
  then have h6: "\<forall>c\<in>set ''\<newline>''. isspace c" by simp
  note t = invalid_names_are_not_blocks[OF h1, of ?ls "''# /// my_block\<newline>''" "''my_block''" "''\<newline>''"]
  have y: "yielded (fst (parse_source_blocks ?p ?ls)) = []"
    by (simp add: parse_source_blocks_def scan_line_def start_def startswith_def rstrip_def
        strip_def lstrip_def removeprefix_def isspace_def is_valid_type_def valid_type_def
        Let_def yielded_def)
  show ?thesis using t h1 h2 h3 h4 h5 h6 y by simp
qed

subsection \<open>C1: a block named pyproject.toml\<close>

text \<open>
  The claim says that a block opened under the name \<open>pyproject.toml\<close> is still yielded
  under that name. The name has a full stop, so it fails \<open>_is_valid_type\<close>, and the
  lines 162 to 164 do not open a block: the scan of such a block, closed properly, gives
  the warning and no block.
\<close>

theorem pyproject_toml_block_counterexample:
  "parse_source_blocks
     \<lparr>src = Some ''x'', src_path = None, encoding = ''utf-8'', possible_errors = []\<rparr>
     [''# /// pyproject.toml\<newline>'', ''# [run]\<newline>'', ''# ///\<newline>'']
   = ([Warn (ShouldBePyproject ''pyproject.toml'')], None,
      \<lparr>src = Some ''x'', src_path = None, encoding = ''utf-8'', possible_errors = []\<rparr>)"
  by (simp add: parse_source_blocks_def scan_line_def start_def startswith_def rstrip_def
      strip_def lstrip_def removeprefix_def isspace_def is_valid_type_def valid_type_def Let_def)

text \<open>
  C1, amended. When a line recognised as an opener with the trimmed name
  \<open>pyproject.toml\<close> is met outside a block, after any scanned lines \<open>pre\<close>, the scan
  issues exactly one warning for it, that the name should be \<open>pyproject\<close>, raises
  nothing, stays outside a block, and goes on with the remaining lines. No scan of any
  source yields a block under the name \<open>pyproject.toml\<close>.
\<close>

theorem pyproject_toml_warns_without_block:
  assumes "scan_lines (start p) pre = (evs, s, None)" and "\<not> in_block s"
    and "opener_name line = Some ''pyproject.toml''"
  shows "scan_lines (start p) (pre @ line # rest) =
           (case scan_lines (s\<lparr>block_name := Some ''pyproject.toml''\<rparr>) rest of
              (evs', s', r) \<Rightarrow> (evs @ Warn (ShouldBePyproject ''pyproject.toml'') # evs', s', r))
         \<and> (\<forall>t. Yield (Some ''pyproject.toml'') t \<notin> set (fst (parse_source_blocks p ls)))"
proof -
  have ok: "frame_ok s" using assms(1) by (rule reached_frame_ok)
  have nc: "''pyproject.toml'' \<notin> consumed_blocks s"
    using ok not_valid_pyproject_toml by (rule invalid_not_consumed)
  have st: "scan_line s line = Inr ([Warn (ShouldBePyproject ''pyproject.toml'')],
                                    s\<lparr>block_name := Some ''pyproject.toml''\<rparr>)"
    using assms(2,3) nc not_valid_pyproject_toml by (simp add: scan_line_outside)
  have "scan_lines (start p) (pre @ line # rest) =
          (case scan_lines s (line # rest) of (evs', s2, r) \<Rightarrow> (evs @ evs', s2, r))"
    by (rule scan_lines_append_ok[OF assms(1)])
  also have "\<dots> = (case scan_lines (s\<lparr>block_name := Some ''pyproject.toml''\<rparr>) rest of
              (evs', s', r) \<Rightarrow> (evs @ Warn (ShouldBePyproject ''pyproject.toml'') # evs', s', r))"
    unfolding scan_lines_step[OF st] by (simp split: prod.splits)
  finally have 1: "scan_lines (start p) (pre @ line # rest) =
           (case scan_lines (s\<lparr>block_name := Some ''pyproject.toml''\<rparr>) rest of
              (evs', s', r) \<Rightarrow> (evs @ Warn (ShouldBePyproject ''pyproject.toml'') # evs', s', r))" .
  have 2: "\<forall>t. Yield (Some ''pyproject.toml'') t \<notin> set (fst (parse_source_blocks p ls))"
    using parse_yield_valid[of "Some ''pyproject.toml''" _ p ls] not_valid_pyproject_toml by auto
  show ?thesis using 1 2 by blast
qed

theorem pyproject_toml_warns_without_block_witness:
  "scan_lines (start \<lparr>src = Some ''x'', src_path = None, encoding = ''utf-8'', possible_errors = []\<rparr>) []
      = ([], start \<lparr>src = Some ''x'', src_path = None, encoding = ''utf-8'', possible_errors = []\<rparr>, None)
   \<and> \<not> in_block (start \<lparr>src = Some ''x'', src_path = None, encoding = ''utf-8'', possible_errors = []\<rparr>)
   \<and> opener_name ''# /// pyproject.toml  \<newline>'' = Some ''pyproject.toml''
   \<and> scan_lines (start \<lparr>src = Some ''x'', src_path = None, encoding = ''utf-8'', possible_errors = []\<rparr>)
         [''# /// pyproject.toml  \<newline>'']
       = ([Warn (ShouldBePyproject ''pyproject.toml'')],
          (start \<lparr>src = Some ''x'', src_path = None, encoding = ''utf-8'', possible_errors = []\<rparr>)
            \<lparr>block_name := Some ''pyproject.toml''\<rparr>, None)"
proof -
  let ?p = "\<lparr>src = Some ''x'', src_path = None, encoding = ''utf-8'', possible_errors = []\<rparr>"
  have h1: "scan_lines (start ?p) [] = ([], start ?p, None)" by simp
  have h2: "\<not> in_block (start ?p)" by (simp add: start_def)
  have h3: "opener_name ''# /// pyproject.toml  \<newline>'' = Some ''pyproject.toml''"
    by (simp add: opener_name_def startswith_def rstrip_def strip_def lstrip_def
        removeprefix_def isspace_def)
  show ?thesis
    using pyproject_toml_warns_without_block[OF h1 h2 h3, of "[]"] h1 h2 h3 by simp
qed

subsection \<open>C2: the opener of pyproject twice before a closer\<close>

text \<open>
  The claim says that a source with \<open># /// pyproject\<close> twice before any closer fails
  with a duplicate-block error. The repository's test source
  \<open>multiple_opening_lines.py\<close> is such a source, and its expected \<open>output\<close> is one
  block with the second opener in its text and no error: the scan gives exactly that.
\<close>

theorem duplicate_opener_counterexample:
  "parse_source_blocks
     \<lparr>src = Some ''x'', src_path = None, encoding = ''utf-8'', possible_errors = []\<rparr>
     multiple_opening_lines
   = ([Yield (Some ''pyproject'') multiple_opening_lines_output], None,
      \<lparr>src = Some ''x'', src_path = None, encoding = ''utf-8'',
        possible_errors = [NewBlockBeforeClosed ''pyproject'' (Some ''pyproject'')]\<rparr>)"
  by (simp add: parse_source_blocks_def multiple_opening_lines_def multiple_opening_lines_output_def
      scan_line_def start_def startswith_def rstrip_def
      strip_def lstrip_def removeprefix_def isspace_def is_valid_type_def valid_type_def Let_def)

text \<open>
  C2, amended. Let \<open># /// pyproject\<close> open a block, outside a block and not seen
  before in the scan. If only interior lines lie between it and a second line
  \<open># /// pyproject\<close>, the scan does not fail at the second line and yields nothing
  there: the block stays open under the same name, the line is added to its text as
  \<open>/// pyproject\<close> and one diagnostic is recorded. The duplicate-block error needs the
  second opener to be met outside a block: if a line that is not a comment line has
  abandoned the first block, and no opener lies in between, the scan ends at the second
  opener with the duplicate-block error, having given one unclosed-block warning and no
  block since the first opener.
\<close>

theorem second_opener_inside_block:
  assumes "scan_lines (start p) pre = (evs, s, None)" and "\<not> in_block s"
    and "''pyproject'' \<notin> consumed_blocks s"
    and "\<forall>c\<in>set ws. isspace c" and "\<forall>c\<in>set ws'. isspace c"
    and "\<forall>l\<in>set body. interior l"
  shows "scan_lines (start p) (pre @ (''# /// pyproject'' @ ws) # body @ [''# /// pyproject'' @ ws']) =
           (evs,
            s\<lparr>self := (self s)\<lparr>possible_errors := possible_errors (self s) @
                   nested_openers (Some ''pyproject'') body @
                   [NewBlockBeforeClosed ''pyproject'' (Some ''pyproject'')]\<rparr>,
              in_block := True, block_name := Some ''pyproject'',
              block_data := map spec_strip_comment body @ [''/// pyproject'' @ ws'],
              consumed_blocks := insert ''pyproject'' (consumed_blocks s)\<rparr>,
            None)
         \<and> ((\<not> comment_line bad \<and> (\<forall>l\<in>set gap. opener_name l = None)) \<longrightarrow>
              parse_source_blocks p
                (pre @ (''# /// pyproject'' @ ws) # body @ bad # gap @ (''# /// pyproject'' @ ws') # rest) =
                (evs @ [Warn (UnclosedBlock (Some ''pyproject''))],
                 Some (ValueError (MultipleBlocks ''pyproject'')),
                 self (opened s ''pyproject'' body)))"
proof -
  let ?o1 = "''# /// pyproject'' @ ws" and ?o2 = "''# /// pyproject'' @ ws'"
  have bd: "block_data s = []"
    using reached_frame_ok[OF assms(1)] assms(2) by (simp add: frame_ok_def)
  have vt: "is_valid_type ''pyproject''" by (simp add: is_valid_type_def valid_type_def)
  have o1: "opener_name ?o1 = Some ''pyproject''" using assms(4) by (rule opener_name_pyproject)
  have o2: "opener_name ?o2 = Some ''pyproject''" using assms(5) by (rule opener_name_pyproject)
  have int: "\<forall>l\<in>set (body @ [?o2]). interior l"
    using assms(6) interior_pyproject_opener[OF assms(5)] by simp
  have run: "scan_lines s (?o1 # body @ [?o2]) = ([], opened s ''pyproject'' (body @ [?o2]), None)"
    using assms(2) bd o1 assms(3) vt int by (rule open_block_run)
  have st: "opened s ''pyproject'' (body @ [?o2]) =
            s\<lparr>self := (self s)\<lparr>possible_errors := possible_errors (self s) @
                   nested_openers (Some ''pyproject'') body @
                   [NewBlockBeforeClosed ''pyproject'' (Some ''pyproject'')]\<rparr>,
              in_block := True, block_name := Some ''pyproject'',
              block_data := map spec_strip_comment body @ [''/// pyproject'' @ ws'],
              consumed_blocks := insert ''pyproject'' (consumed_blocks s)\<rparr>"
    unfolding opened_def nested_openers_append nested_openers_pyproject[OF assms(5)]
    by (simp add: removeprefix_spec_Suc)
  have 1: "scan_lines (start p) (pre @ ?o1 # body @ [?o2]) =
             (evs, opened s ''pyproject'' (body @ [?o2]), None)"
    using scan_lines_append_ok[OF assms(1), of "?o1 # body @ [?o2]"] run by simp
  have 2: "parse_source_blocks p (pre @ ?o1 # body @ bad # gap @ ?o2 # rest) =
                (evs @ [Warn (UnclosedBlock (Some ''pyproject''))],
                 Some (ValueError (MultipleBlocks ''pyproject'')),
                 self (opened s ''pyproject'' body))"
    if nb: "\<not> comment_line bad" and gap: "\<forall>l\<in>set gap. opener_name l = None"
  proof -
    let ?s1 = "opened s ''pyproject'' body"
    have r1: "scan_lines s (?o1 # body) = ([], ?s1, None)"
      using assms(2) bd o1 assms(3) vt assms(6) by (rule open_block_run)
    have r2: "scan_line ?s1 bad = Inr ([Warn (UnclosedBlock (Some ''pyproject''))], left_block ?s1)"
      using scan_line_abandon[OF in_block_opened nb, of s "''pyproject''" body]
      by (simp add: block_name_opened)
    have r3: "scan_lines (left_block ?s1) gap = ([], left_block ?s1, None)"
      using not_in_block_left_block gap by (rule scan_lines_inert)
    have r4: "scan_line (left_block ?s1) ?o2 = Inl (ValueError (MultipleBlocks ''pyproject''))"
      using o2 by (simp add: scan_line_outside not_in_block_left_block consumed_left_block
          consumed_opened)
    have r5: "scan_lines (left_block ?s1) (gap @ ?o2 # rest) =
                ([], left_block ?s1, Some (ValueError (MultipleBlocks ''pyproject'')))"
      using scan_lines_append_ok[OF r3, of "?o2 # rest"] r4 by simp
    have r6: "scan_lines ?s1 (bad # gap @ ?o2 # rest) =
                ([Warn (UnclosedBlock (Some ''pyproject''))], left_block ?s1,
                 Some (ValueError (MultipleBlocks ''pyproject'')))"
      unfolding scan_lines_step[OF r2] r5 by simp
    have r7: "scan_lines s ((?o1 # body) @ bad # gap @ ?o2 # rest) =
                ([Warn (UnclosedBlock (Some ''pyproject''))], left_block ?s1,
                 Some (ValueError (MultipleBlocks ''pyproject'')))"
      unfolding scan_lines_append_ok[OF r1] r6 by simp
    have r8: "scan_lines (start p) (pre @ (?o1 # body) @ bad # gap @ ?o2 # rest) =
                (evs @ [Warn (UnclosedBlock (Some ''pyproject''))], left_block ?s1,
                 Some (ValueError (MultipleBlocks ''pyproject'')))"
      unfolding scan_lines_append_ok[OF assms(1)] r7 by simp
    then have "scan_lines (start p) (pre @ ?o1 # body @ bad # gap @ ?o2 # rest) =
                (evs @ [Warn (UnclosedBlock (Some ''pyproject''))], left_block ?s1,
                 Some (ValueError (MultipleBlocks ''pyproject'')))" by simp
    then show ?thesis unfolding parse_source_blocks_def by (simp add: left_block_def)
  qed
  show ?thesis using 1 2 unfolding st by blast
qed

theorem second_opener_inside_block_witness:
  "scan_lines (start \<lparr>src = Some ''x'', src_path = None, encoding = ''utf-8'', possible_errors = []\<rparr>) []
      = ([], start \<lparr>src = Some ''x'', src_path = None, encoding = ''utf-8'', possible_errors = []\<rparr>, None)
   \<and> \<not> in_block (start \<lparr>src = Some ''x'', src_path = None, encoding = ''utf-8'', possible_errors = []\<rparr>)
   \<and> ''pyproject'' \<notin> consumed_blocks
         (start \<lparr>src = Some ''x'', src_path = None, encoding = ''utf-8'', possible_errors = []\<rparr>)
   \<and> isspace CHR 0x0A
   \<and> interior ''# [run]\<newline>''
   \<and> \<not> comment_line ''import sys\<newline>''
   \<and> scan_lines (start \<lparr>src = Some ''x'', src_path = None, encoding = ''utf-8'', possible_errors = []\<rparr>)
         [''# /// pyproject\<newline>'', ''# [run]\<newline>'', ''# /// pyproject\<newline>'']
       = ([], \<lparr>self = \<lparr>src = Some ''x'', src_path = None, encoding = ''utf-8'',
                       possible_errors = [NewBlockBeforeClosed ''pyproject'' (Some ''pyproject'')]\<rparr>,
                in_block = True, block_name = Some ''pyproject'',
                block_data = [''[run]\<newline>'', ''/// pyproject\<newline>''],
                consumed_blocks = {''pyproject''}\<rparr>, None)
   \<and> parse_source_blocks
         \<lparr>src = Some ''x'', src_path = None, encoding = ''utf-8'', possible_errors = []\<rparr>
         [''# /// pyproject\<newline>'', ''# [run]\<newline>'', ''import sys\<newline>'', ''# /// pyproject\<newline>'']
       = ([Warn (UnclosedBlock (Some ''pyproject''))], Some (ValueError (MultipleBlocks ''pyproject'')),
          \<lparr>src = Some ''x'', src_path = None, encoding = ''utf-8'', possible_errors = []\<rparr>)"
proof -
  let ?p = "\<lparr>src = Some ''x'', src_path = None, encoding = ''utf-8'', possible_errors = []\<rparr>"
  have h1: "scan_lines (start ?p) [] = ([], start ?p, None)" by simp
  have h2: "\<not> in_block (start ?p)" by (simp add: start_def)
  have h3: "''pyproject'' \<notin> consumed_blocks (start ?p)" by (simp add: start_def)
  have sp: "isspace CHR 0x0A" by (simp add: isspace_def)
  then have h4: "\<forall>c\<in>set ''\<newline>''. isspace c" by simp
  have i: "interior ''# [run]\<newline>''"
    by (simp add: interior_def comment_line_def closer_def startswith_def rstrip_def isspace_def)
  then have h6: "\<forall>l\<in>set [''# [run]\<newline>'']. interior l" by simp
  have h7: "\<not> comment_line ''import sys\<newline>''"
    by (simp add: comment_line_def startswith_def rstrip_def isspace_def)
  have n: "nested_openers (Some ''pyproject'') [''# [run]\<newline>''] = []"
    by (simp add: nested_openers_def startswith_def)
  show ?thesis
    using second_opener_inside_block[OF h1 h2 h3 h4 h4 h6, of "''import sys\<newline>''" "[]" "[]"]
      h1 h2 h3 sp i h7 n
    by (simp add: opened_def start_def)
qed

subsection \<open>C3: the same name opened twice outside a block\<close>

text \<open>
  The claim says that no block at all is returned from a scan that meets the same valid
  name twice outside a block, not even the first, completed block. The scan is a
  generator: line 135 hands the first block to the caller before line 158 raises. On
  a source with a closed block \<open>a\<close> and a second opener \<open>a\<close>, the iterator gives the
  block and then the error, and \<open>get_first_metadata_block\<close> returns the text of the
  first block and no error.
\<close>


theorem first_block_returned_counterexample:
  "opener_name ''# /// a\<newline>'' = Some ''a''
   \<and> is_valid_type ''a''
   \<and> iter_raw_metadata_blocks no_collaborators
         \<lparr>src = Some ''# /// a\<newline># x\<newline># ///\<newline># /// a\<newline>'', src_path = None,
           encoding = ''utf-8'', possible_errors = []\<rparr>
       = ([Yield (Some ''a'') ''x\<newline>''], Some (ValueError (MultipleBlocks ''a'')),
          \<lparr>src = Some ''# /// a\<newline># x\<newline># ///\<newline># /// a\<newline>'', src_path = None,
            encoding = ''utf-8'', possible_errors = []\<rparr>)
   \<and> get_first_metadata_block no_collaborators
         \<lparr>src = Some ''# /// a\<newline># x\<newline># ///\<newline># /// a\<newline>'', src_path = None,
           encoding = ''utf-8'', possible_errors = []\<rparr> ''a''
       = ([], \<lparr>src = Some ''# /// a\<newline># x\<newline># ///\<newline># /// a\<newline>'', src_path = None,
                encoding = ''utf-8'', possible_errors = []\<rparr>,
          Inr ''x\<newline>'')"
  by (simp add: iter_raw_metadata_blocks_def get_first_metadata_block_def truthy_src_def
      parse_source_blocks_def scan_line_def start_def opener_name_def startswith_def rstrip_def
      strip_def lstrip_def removeprefix_def isspace_def is_valid_type_def valid_type_def Let_def)

text \<open>
  C3, amended. Let a line recognised as an opener with a valid name \<open>nm\<close> be met
  outside a block, and later in the same scan, again outside a block, a second line
  recognised as an opener with the same name. Then the scan raises the duplicate-block
  \<open>ValueError\<close> at the second line and reads no further line. The blocks completed
  before that line, those among the events \<open>evs\<close>, have by then been handed to a caller
  that iterates the scan. \<open>metadata_blocks\<close>, which collects the whole scan, raises the
  error and returns no mapping, not even with the first block.
  \<open>get_first_metadata_block\<close> returns the text of the first block of the requested name
  among \<open>evs\<close>, if there is one, and raises the duplicate-block error otherwise.
\<close>


theorem duplicate_name_fails_scan:
  assumes "scan_lines (start p) pre = (evs1, s1, None)" and "\<not> in_block s1"
    and "opener_name opener = Some nm" and "is_valid_type nm"
    and "scan_lines (start p) (pre @ opener # mid) = (evs, s, None)" and "\<not> in_block s"
    and "opener_name again = Some nm"
  shows "parse_source_blocks p (pre @ opener # mid @ again # rest) =
           (evs, Some (ValueError (MultipleBlocks nm)), self s)
         \<and> (scanned_source E p (pre @ opener # mid @ again # rest) \<longrightarrow>
              iter_raw_metadata_blocks E p = (evs, Some (ValueError (MultipleBlocks nm)), self s)
              \<and> metadata_blocks E p = (warned evs, self s, Inl (ValueError (MultipleBlocks nm)))
              \<and> snd (snd (get_first_metadata_block E p name)) =
                    (case snd (consume name evs) of
                       Some block_text \<Rightarrow> Inr block_text
                     | None \<Rightarrow> Inl (ValueError (MultipleBlocks nm))))"
proof -
  let ?s2 = "s1\<lparr>block_name := Some nm,
                consumed_blocks := insert nm (consumed_blocks s1), in_block := True\<rparr>"
  have nin: "nm \<notin> consumed_blocks s1"
  proof
    assume "nm \<in> consumed_blocks s1"
    then have "scan_line s1 opener = Inl (ValueError (MultipleBlocks nm))"
      using assms(2,3) by (simp add: scan_line_outside)
    then have "scan_lines s1 (opener # mid) = ([], s1, Some (ValueError (MultipleBlocks nm)))"
      by simp
    then have "scan_lines (start p) (pre @ opener # mid) =
                 (evs1, s1, Some (ValueError (MultipleBlocks nm)))"
      using scan_lines_append_ok[OF assms(1), of "opener # mid"] by simp
    with assms(5) show False by simp
  qed
  have st: "scan_line s1 opener = Inr ([], ?s2)"
    using assms(2,3,4) nin by (simp add: scan_line_outside)
  obtain ev2 s3 r3 where rest: "scan_lines ?s2 mid = (ev2, s3, r3)" by (cases "scan_lines ?s2 mid")
  have "scan_lines (start p) (pre @ opener # mid) = (evs1 @ ev2, s3, r3)"
    using scan_lines_append_ok[OF assms(1), of "opener # mid"] scan_lines_step[OF st, of mid] rest
    by simp
  with assms(5) have "s3 = s" by simp
  with rest have "consumed_blocks ?s2 \<subseteq> consumed_blocks s"
    using scan_lines_consumed_mono by blast
  then have seen: "nm \<in> consumed_blocks s" by auto
  have fail: "scan_line s again = Inl (ValueError (MultipleBlocks nm))"
    using assms(6,7) seen by (simp add: scan_line_outside)
  have "scan_lines (start p) ((pre @ opener # mid) @ again # rest) =
          (case scan_lines s (again # rest) of (evs', s2, r) \<Rightarrow> (evs @ evs', s2, r))"
    by (rule scan_lines_append_ok[OF assms(5)])
  then have all: "scan_lines (start p) (pre @ opener # mid @ again # rest) =
          (evs, s, Some (ValueError (MultipleBlocks nm)))"
    using fail by simp
  have 1: "parse_source_blocks p (pre @ opener # mid @ again # rest) =
           (evs, Some (ValueError (MultipleBlocks nm)), self s)"
    unfolding parse_source_blocks_def all by simp
  have 2: "iter_raw_metadata_blocks E p = (evs, Some (ValueError (MultipleBlocks nm)), self s)"
    if "scanned_source E p (pre @ opener # mid @ again # rest)"
    unfolding iter_raw_scanned[OF that] 1 by simp
  have 3: "metadata_blocks E p = (warned evs, self s, Inl (ValueError (MultipleBlocks nm)))"
    if "scanned_source E p (pre @ opener # mid @ again # rest)"
    unfolding metadata_blocks_def 2[OF that] by simp
  have 4: "snd (snd (get_first_metadata_block E p name)) =
                    (case snd (consume name evs) of
                       Some block_text \<Rightarrow> Inr block_text
                     | None \<Rightarrow> Inl (ValueError (MultipleBlocks nm)))"
    if "scanned_source E p (pre @ opener # mid @ again # rest)"
    unfolding get_first_scanned[OF that] first_block_result[OF all]
    by (simp split: option.splits)
  show ?thesis using 1 2 3 4 by blast
qed

theorem duplicate_name_fails_scan_witness:
  "scan_lines (start \<lparr>src = Some ''# /// a\<newline># x\<newline># ///\<newline># /// a\<newline>'', src_path = None,
                       encoding = ''utf-8'', possible_errors = []\<rparr>) []
      = ([], start \<lparr>src = Some ''# /// a\<newline># x\<newline># ///\<newline># /// a\<newline>'', src_path = None,
                     encoding = ''utf-8'', possible_errors = []\<rparr>, None)
   \<and> \<not> in_block (start \<lparr>src = Some ''# /// a\<newline># x\<newline># ///\<newline># /// a\<newline>'',
                          src_path = None, encoding = ''utf-8'', possible_errors = []\<rparr>)
   \<and> opener_name ''# /// a\<newline>'' = Some ''a''
   \<and> is_valid_type ''a''
   \<and> scan_lines (start \<lparr>src = Some ''# /// a\<newline># x\<newline># ///\<newline># /// a\<newline>'', src_path = None,
                         encoding = ''utf-8'', possible_errors = []\<rparr>)
         [''# /// a\<newline>'', ''# x\<newline>'', ''# ///\<newline>'']
       = ([Yield (Some ''a'') ''x\<newline>''],
          \<lparr>self = \<lparr>src = Some ''# /// a\<newline># x\<newline># ///\<newline># /// a\<newline>'', src_path = None,
                    encoding = ''utf-8'', possible_errors = []\<rparr>,
            in_block = False, block_name = None, block_data = [], consumed_blocks = {''a''}\<rparr>,
          None)
   \<and> scanned_source no_collaborators
         \<lparr>src = Some ''# /// a\<newline># x\<newline># ///\<newline># /// a\<newline>'', src_path = None,
           encoding = ''utf-8'', possible_errors = []\<rparr>
         [''# /// a\<newline>'', ''# x\<newline>'', ''# ///\<newline>'', ''# /// a\<newline>'']
   \<and> iter_raw_metadata_blocks no_collaborators
         \<lparr>src = Some ''# /// a\<newline># x\<newline># ///\<newline># /// a\<newline>'', src_path = None,
           encoding = ''utf-8'', possible_errors = []\<rparr>
       = ([Yield (Some ''a'') ''x\<newline>''], Some (ValueError (MultipleBlocks ''a'')),
          \<lparr>src = Some ''# /// a\<newline># x\<newline># ///\<newline># /// a\<newline>'', src_path = None,
            encoding = ''utf-8'', possible_errors = []\<rparr>)
   \<and> metadata_blocks no_collaborators
         \<lparr>src = Some ''# /// a\<newline># x\<newline># ///\<newline># /// a\<newline>'', src_path = None,
           encoding = ''utf-8'', possible_errors = []\<rparr>
       = ([], \<lparr>src = Some ''# /// a\<newline># x\<newline># ///\<newline># /// a\<newline>'', src_path = None,
                encoding = ''utf-8'', possible_errors = []\<rparr>,
          Inl (ValueError (MultipleBlocks ''a'')))
   \<and> snd (snd (get_first_metadata_block no_collaborators
         \<lparr>src = Some ''# /// a\<newline># x\<newline># ///\<newline># /// a\<newline>'', src_path = None,
           encoding = ''utf-8'', possible_errors = []\<rparr> ''a'')) = Inr ''x\<newline>''
   \<and> snd (snd (get_first_metadata_block no_collaborators
         \<lparr>src = Some ''# /// a\<newline># x\<newline># ///\<newline># /// a\<newline>'', src_path = None,
           encoding = ''utf-8'', possible_errors = []\<rparr> ''b'')) = Inl (ValueError (MultipleBlocks ''a''))"
proof -
  let ?p = "\<lparr>src = Some ''# /// a\<newline># x\<newline># ///\<newline># /// a\<newline>'', src_path = None,
             encoding = ''utf-8'', possible_errors = []\<rparr>"
  let ?s = "\<lparr>self = ?p, in_block = False, block_name = None, block_data = [],
             consumed_blocks = {''a''}\<rparr>"
  have h1: "scan_lines (start ?p) [] = ([], start ?p, None)" by simp
  have h2: "\<not> in_block (start ?p)" by (simp add: start_def)
  have h3: "opener_name ''# /// a\<newline>'' = Some ''a''"
    by (simp add: opener_name_def startswith_def rstrip_def strip_def lstrip_def
        removeprefix_def isspace_def)
  have h4: "is_valid_type ''a''" by (simp add: is_valid_type_def valid_type_def)
  have h5: "scan_lines (start ?p) ([] @ ''# /// a\<newline>'' # [''# x\<newline>'', ''# ///\<newline>''])
              = ([Yield (Some ''a'') ''x\<newline>''], ?s, None)"
    by (simp add: scan_line_def start_def startswith_def rstrip_def strip_def lstrip_def
        removeprefix_def isspace_def is_valid_type_def valid_type_def Let_def)
  have h6: "\<not> in_block ?s" by simp
  have h7: "scanned_source no_collaborators ?p
              ([] @ ''# /// a\<newline>'' # [''# x\<newline>'', ''# ///\<newline>''] @ ''# /// a\<newline>'' # [])"
    by (simp add: scanned_source_def truthy_src_def)
  have w: "warned [Yield (Some ''a'') ''x\<newline>''] = []" by (simp add: warned_def)
  note t = duplicate_name_fails_scan[OF h1 h2 h3 h4 h5 h6 h3, of "[]" no_collaborators]
  show ?thesis
    using t[of "''a''"] t[of "''b''"] h1 h2 h3 h4 h5 h7 w
    by simp
qed

subsection \<open>C8: when the diagnostics list is emptied\<close>

text \<open>
  The claim says that entering a block empties \<open>possible_errors\<close>. The list is emptied
  at line 120 only, before the loop: after a block \<open>a\<close> with a nested opener has been
  closed and a block \<open>c\<close> has been entered, the diagnostic recorded for \<open>a\<close> is still in
  the list.
\<close>


theorem diagnostics_cleared_per_block_counterexample:
  "scan_lines (start \<lparr>src = Some ''x'', src_path = None, encoding = ''utf-8'', possible_errors = []\<rparr>)
     [''# /// a\<newline>'', ''# /// b\<newline>'', ''# ///\<newline>'', ''# /// c\<newline>'']
   = ([Yield (Some ''a'') ''/// b\<newline>''],
      \<lparr>self = \<lparr>src = Some ''x'', src_path = None, encoding = ''utf-8'',
                possible_errors = [NewBlockBeforeClosed ''b'' (Some ''a'')]\<rparr>,
        in_block = True, block_name = Some ''c'', block_data = [],
        consumed_blocks = {''c'', ''a''}\<rparr>,
      None)"
  by (simp add: scan_line_def start_def startswith_def rstrip_def strip_def lstrip_def
      removeprefix_def isspace_def is_valid_type_def valid_type_def Let_def)

text \<open>
  C8, amended. The diagnostics list is emptied once, when a scan starts. Each iteration
  that does not raise keeps the list and appends to it: one entry when the line is an
  opener-prefixed interior line of the open block, nothing otherwise; so entering a block
  leaves the list as it is. At any point of a scan the list therefore begins with what
  it held at any earlier point: it holds the diagnostics of all blocks opened so far in
  this scan, in order.
\<close>


theorem diagnostics_cleared_per_scan:
  "possible_errors (self (start p)) = []
   \<and> (scan_line s line = Inr (evs, s') \<longrightarrow>
        possible_errors (self s') = possible_errors (self s) @
          (if in_block s \<and> interior line then nested_openers (block_name s) [line] else []))
   \<and> (scan_lines s ls = (evs', s'', r) \<longrightarrow>
        (\<exists>d. possible_errors (self s'') = possible_errors (self s) @ d))"
  using scan_line_possible_errors scan_lines_possible_errors by (simp add: start_def)

theorem diagnostics_cleared_per_scan_witness:
  "scan_line \<lparr>self = \<lparr>src = Some ''x'', src_path = None, encoding = ''utf-8'',
                      possible_errors = [NewBlockBeforeClosed ''b'' (Some ''a'')]\<rparr>,
               in_block = False, block_name = None, block_data = [], consumed_blocks = {''a''}\<rparr>
       ''# /// c\<newline>''
     = Inr ([], \<lparr>self = \<lparr>src = Some ''x'', src_path = None, encoding = ''utf-8'',
                            possible_errors = [NewBlockBeforeClosed ''b'' (Some ''a'')]\<rparr>,
                   in_block = True, block_name = Some ''c'', block_data = [],
                   consumed_blocks = {''c'', ''a''}\<rparr>)
   \<and> possible_errors (self \<lparr>self = \<lparr>src = Some ''x'', src_path = None, encoding = ''utf-8'',
                            possible_errors = [NewBlockBeforeClosed ''b'' (Some ''a'')]\<rparr>,
                   in_block = True, block_name = Some ''c'', block_data = [],
                   consumed_blocks = {''c'', ''a''}\<rparr>)
       = [NewBlockBeforeClosed ''b'' (Some ''a'')] @ []"
proof -
  let ?s = "\<lparr>self = \<lparr>src = Some ''x'', src_path = None, encoding = ''utf-8'',
                      possible_errors = [NewBlockBeforeClosed ''b'' (Some ''a'')]\<rparr>,
               in_block = False, block_name = None, block_data = [], consumed_blocks = {''a''}\<rparr>"
  let ?s' = "\<lparr>self = \<lparr>src = Some ''x'', src_path = None, encoding = ''utf-8'',
                            possible_errors = [NewBlockBeforeClosed ''b'' (Some ''a'')]\<rparr>,
                   in_block = True, block_name = Some ''c'', block_data = [],
                   consumed_blocks = {''c'', ''a''}\<rparr>"
  have h: "scan_line ?s ''# /// c\<newline>'' = Inr ([], ?s')"
    by (simp add: scan_line_def startswith_def rstrip_def strip_def lstrip_def
      removeprefix_def isspace_def is_valid_type_def valid_type_def Let_def)
  have "possible_errors (self ?s') = possible_errors (self ?s) @
          (if in_block ?s \<and> interior ''# /// c\<newline>''
           then nested_openers (block_name ?s) [''# /// c\<newline>''] else [])"
    using diagnostics_cleared_per_scan[of _ ?s "''# /// c\<newline>''" "[]" ?s'] h by blast
  then show ?thesis using h by simp
qed

subsection \<open>C9: the source given to the constructor\<close>

text \<open>
  C9. The constructor is to fail exactly when both sources or neither are supplied.
  \<open>__init__\<close> tests the truth value of \<open>src\<close> and \<open>src_path\<close>, and an empty string
  is false: \<open>from_string\<close> on the empty source text, which supplies \<open>src\<close> and nothing
  else, raises the \<open>ValueError\<close> whose message asks to provide one of the two; and with
  the empty source text and a path, both supplied, construction succeeds.
\<close>


theorem empty_source_string_is_refused:
  "from_string '''' = Inl (ValueError MustProvideOne)
   \<and> init (Some '''') None ''utf-8'' = Inl (ValueError MustProvideOne)
   \<and> init (Some '''') (Some (PathStr ''script.py'')) ''utf-8'' =
       Inr \<lparr>src = Some '''', src_path = Some (PathStr ''script.py''), encoding = ''utf-8'',
             possible_errors = []\<rparr>"
  by (simp add: from_string_def init_def truthy_src_def truthy_path_def)

subsection \<open>C10: the extra keys of the run table\<close>




end
